theory Spec2Isabelle
  imports Main
begin

section \<open>Python values\<close>

text \<open>
  A Python \<open>str\<close> is modelled as a \<^typ>\<open>string\<close>, a list of 8-bit characters read as the
  code points 0..255; \<open>bytes\<close> are lists of the same characters. A dict with string keys is an
  association list in insertion order. An exception is a value of \<open>error\<close>; a function that
  can raise returns \<open>error + 'a\<close>, with \<open>Inl\<close> for the exception.
\<close>

type_synonym bytes = string

type_synonym dict = "(string \<times> string) list"

datatype error =
    RequestError string
  | TimeoutException
  | IndexError
  | KeyError
  | ValueError
  | LookupError
  | UnicodeDecodeError
  | TypeError
  | UnboundLocalError
  | OtherError string

text \<open>\<open>sep.join(xs)\<close>\<close>

fun join :: "string \<Rightarrow> string list \<Rightarrow> string" where
  "join sep [] = []"
| "join sep [x] = x"
| "join sep (x # y # ys) = x @ sep @ join sep (y # ys)"

text \<open>\<open>str(n)\<close> of a Python int: decimal digits, with a minus sign below zero.\<close>

definition digit_char :: "nat \<Rightarrow> char" where
  "digit_char d =
     (if d = 0 then CHR ''0'' else if d = 1 then CHR ''1'' else if d = 2 then CHR ''2''
      else if d = 3 then CHR ''3'' else if d = 4 then CHR ''4'' else if d = 5 then CHR ''5''
      else if d = 6 then CHR ''6'' else if d = 7 then CHR ''7'' else if d = 8 then CHR ''8''
      else CHR ''9'')"

fun str_nat :: "nat \<Rightarrow> string" where
  "str_nat n = (if n < 10 then [digit_char n] else str_nat (n div 10) @ [digit_char (n mod 10)])"

declare str_nat.simps [simp del]

definition str_int :: "int \<Rightarrow> string" where
  "str_int i = (if i < 0 then CHR ''-'' # str_nat (nat (- i)) else str_nat (nat i))"

section \<open>The deduplication hash of the scrapers\<close>

text \<open>
  \<open>PropertyListing\<close> (models/property.py) as the two scrapers use it: the eight fields
  \<open>_generate_property_hash\<close> reads, and some of the fields it does not read. A field that
  was never assigned is \<open>None\<close>.
\<close>

record property_listing =
  source :: string
  source_id :: "string option"
  url :: "string option"
  title :: "string option"
  address :: "string option"
  postal_code :: "string option"
  city :: "string option"
  living_area :: "int option"
  price_numeric :: "int option"
  price :: "string option"
  rooms :: "int option"
  property_hash :: "string option"

text \<open>
  \<open>if listing.f: identifiers.append(listing.f)\<close>: Python's truth test skips \<open>None\<close> and
  the empty string.
\<close>

fun append_if :: "string option \<Rightarrow> string list" where
  "append_if None = []"
| "append_if (Some s) = (if s = [] then [] else [s])"

text \<open>
  \<open>if listing.f: identifiers.append(f"tag:{listing.f}")\<close>: the truth test skips \<open>None\<close>
  and the number 0.
\<close>

fun append_if_num :: "string \<Rightarrow> int option \<Rightarrow> string list" where
  "append_if_num tag None = []"
| "append_if_num tag (Some n) = (if n = 0 then [] else [tag @ str_int n])"

text \<open>The list \<open>identifiers\<close> after the eight tests of vbt.py, lines 47-67.\<close>

definition vbt_identifiers :: "property_listing \<Rightarrow> string list" where
  "vbt_identifiers listing =
     append_if (url listing) @
     append_if (source_id listing) @
     append_if (title listing) @
     append_if (address listing) @
     append_if (postal_code listing) @
     append_if (city listing) @
     append_if_num ''area:'' (living_area listing) @
     append_if_num ''price:'' (price_numeric listing)"

text \<open>
  Lines 70-74: the fallback \<open>str(uuid.uuid4())\<close> when the list is empty (\<open>uuid4\<close> is the
  value drawn by this call), and then \<open>"|".join([str(x) for x in identifiers if x])\<close>.
\<close>

definition vbt_hash_input :: "string \<Rightarrow> property_listing \<Rightarrow> string" where
  "vbt_hash_input uuid4 listing =
     (let identifiers = vbt_identifiers listing;
          identifiers = (if identifiers = [] then identifiers @ [uuid4] else identifiers)
      in join ''|'' (filter (\<lambda>x. x \<noteq> []) identifiers))"

text \<open>
  Line 77: \<open>hashlib.md5(hash_input.encode()).hexdigest()\<close>. The digest of the standard
  library is a parameter: \<open>md5 s\<close> is the hexadecimal MD5 digest of the UTF-8 encoding of
  \<open>s\<close>.
\<close>

definition vbt_generate_property_hash ::
    "(string \<Rightarrow> string) \<Rightarrow> string \<Rightarrow> property_listing \<Rightarrow> string" where
  "vbt_generate_property_hash md5 uuid4 listing = md5 (vbt_hash_input uuid4 listing)"

text \<open>The same method of hureninhollandrijnland.py, lines 42-77.\<close>

definition hihr_identifiers :: "property_listing \<Rightarrow> string list" where
  "hihr_identifiers listing =
     append_if (url listing) @
     append_if (source_id listing) @
     append_if (title listing) @
     append_if (address listing) @
     append_if (postal_code listing) @
     append_if (city listing) @
     append_if_num ''area:'' (living_area listing) @
     append_if_num ''price:'' (price_numeric listing)"

definition hihr_hash_input :: "string \<Rightarrow> property_listing \<Rightarrow> string" where
  "hihr_hash_input uuid4 listing =
     (let identifiers = hihr_identifiers listing;
          identifiers = (if identifiers = [] then identifiers @ [uuid4] else identifiers)
      in join ''|'' (filter (\<lambda>x. x \<noteq> []) identifiers))"

definition hihr_generate_property_hash ::
    "(string \<Rightarrow> string) \<Rightarrow> string \<Rightarrow> property_listing \<Rightarrow> string" where
  "hihr_generate_property_hash md5 uuid4 listing = md5 (hihr_hash_input uuid4 listing)"

text \<open>The scraper class whose method is called.\<close>

datatype scraper = VBTVerhuurmakelaarsScraper | HurenInHollandRijnland

fun generate_property_hash ::
    "scraper \<Rightarrow> (string \<Rightarrow> string) \<Rightarrow> string \<Rightarrow> property_listing \<Rightarrow> string" where
  "generate_property_hash VBTVerhuurmakelaarsScraper = vbt_generate_property_hash"
| "generate_property_hash HurenInHollandRijnland = hihr_generate_property_hash"

fun hash_input :: "scraper \<Rightarrow> string \<Rightarrow> property_listing \<Rightarrow> string" where
  "hash_input VBTVerhuurmakelaarsScraper = vbt_hash_input"
| "hash_input HurenInHollandRijnland = hihr_hash_input"

text \<open>
  The identifying fields of a listing, and the test of the code for "present": a string
  that is neither \<open>None\<close> nor empty, a number that is neither \<open>None\<close> nor 0.
\<close>

definition identifying_fields ::
    "property_listing \<Rightarrow>
       string option \<times> string option \<times> string option \<times> string option \<times>
       string option \<times> string option \<times> int option \<times> int option" where
  "identifying_fields l =
     (url l, source_id l, title l, address l, postal_code l, city l, living_area l,
      price_numeric l)"

definition present :: "string option \<Rightarrow> bool" where
  "present x = (case x of None \<Rightarrow> False | Some s \<Rightarrow> s \<noteq> [])"

definition present_num :: "int option \<Rightarrow> bool" where
  "present_num x = (case x of None \<Rightarrow> False | Some n \<Rightarrow> n \<noteq> 0)"

definition some_identifying_field_present :: "property_listing \<Rightarrow> bool" where
  "some_identifying_field_present l =
     (present (url l) \<or> present (source_id l) \<or> present (title l) \<or> present (address l) \<or>
      present (postal_code l) \<or> present (city l) \<or> present_num (living_area l) \<or>
      present_num (price_numeric l))"

text \<open>Which of the eight fields are present, in the order of the code.\<close>

definition presence :: "property_listing \<Rightarrow> bool list" where
  "presence l =
     [present (url l), present (source_id l), present (title l), present (address l),
      present (postal_code l), present (city l), present_num (living_area l),
      present_num (price_numeric l)]"

text \<open>The present fields, with every field that the code skips read as \<open>None\<close>.\<close>

definition keep :: "string option \<Rightarrow> string option" where
  "keep x = (if present x then x else None)"

definition keep_num :: "int option \<Rightarrow> int option" where
  "keep_num x = (if present_num x then x else None)"

definition present_fields ::
    "property_listing \<Rightarrow>
       string option \<times> string option \<times> string option \<times> string option \<times>
       string option \<times> string option \<times> int option \<times> int option" where
  "present_fields l =
     (keep (url l), keep (source_id l), keep (title l), keep (address l),
      keep (postal_code l), keep (city l), keep_num (living_area l),
      keep_num (price_numeric l))"

text \<open>No present string field holds the separator \<open>|\<close>.\<close>

definition pipe_free :: "property_listing \<Rightarrow> bool" where
  "pipe_free l =
     list_all (\<lambda>s. CHR ''|'' \<notin> set s)
       (append_if (url l) @ append_if (source_id l) @ append_if (title l) @
        append_if (address l) @ append_if (postal_code l) @ append_if (city l))"

text \<open>Two listings of the examples below.\<close>

definition listing_a :: property_listing where
  "listing_a =
     \<lparr>source = ''vb&t'', source_id = Some ''1187'',
      url = Some ''https://www.vbtverhuurmakelaars.nl/woning/leiden-1187'',
      title = Some ''Breestraat 12'', address = Some ''Breestraat 12'', postal_code = None,
      city = Some ''LEIDEN'', living_area = Some 54, price_numeric = Some 1250,
      price = Some ''1250 per month'', rooms = Some 2, property_hash = None\<rparr>"

definition listing_title_only :: property_listing where
  "listing_title_only =
     \<lparr>source = ''vb&t'', source_id = None, url = None, title = Some ''Breestraat 12'',
      address = None, postal_code = None, city = None, living_area = None,
      price_numeric = None, price = None, rooms = None, property_hash = None\<rparr>"

definition listing_address_only :: property_listing where
  "listing_address_only =
     \<lparr>source = ''vb&t'', source_id = None, url = None, title = None,
      address = Some ''Breestraat 12'', postal_code = None, city = None, living_area = None,
      price_numeric = None, price = None, rooms = None, property_hash = None\<rparr>"

text \<open>A list of identifiers none of which is empty or holds the separator.\<close>

definition clean :: "string list \<Rightarrow> bool" where
  "clean xs = (\<forall>x\<in>set xs. x \<noteq> [] \<and> CHR ''|'' \<notin> set x)"

section \<open>Strings, numbers and dicts of the HTTP client\<close>

text \<open>
  \<open>s.lower()\<close> on the code points 0..255: the letters A-Z and the upper-case letters of
  Latin-1 (0xC0-0xDE without the multiplication sign 0xD7) move up by 32.
\<close>

definition lower_char :: "char \<Rightarrow> char" where
  "lower_char c =
     (let n = (of_char c :: nat)
      in if (65 \<le> n \<and> n \<le> 90) \<or> (192 \<le> n \<and> n \<le> 222 \<and> n \<noteq> 215)
         then char_of (n + 32) else c)"

definition lower :: "string \<Rightarrow> string" where
  "lower s = map lower_char s"

text \<open>\<open>p in s\<close> for two strings: \<open>p\<close> occurs in \<open>s\<close> as a contiguous substring.\<close>

fun contains :: "string \<Rightarrow> string \<Rightarrow> bool" where
  "contains p [] = (p = [])"
| "contains p (c # s) = (take (length p) (c # s) = p \<or> contains p s)"

text \<open>\<open>s.split(c)\<close> for a one-character separator: never an empty list.\<close>

fun split_on :: "char \<Rightarrow> string \<Rightarrow> string list" where
  "split_on c [] = [[]]"
| "split_on c (x # xs) =
     (if x = c then [] # split_on c xs
      else (case split_on c xs of [] \<Rightarrow> [[x]] | w # ws \<Rightarrow> (x # w) # ws))"

text \<open>\<open>s.strip()\<close>: the white space of Python among the code points 0..255.\<close>

definition is_space :: "char \<Rightarrow> bool" where
  "is_space c =
     (let n = (of_char c :: nat)
      in (9 \<le> n \<and> n \<le> 13) \<or> (28 \<le> n \<and> n \<le> 32) \<or> n = 133 \<or> n = 160)"

definition strip :: "string \<Rightarrow> string" where
  "strip s = rev (dropWhile is_space (rev (dropWhile is_space s)))"

text \<open>
  \<open>int(s)\<close> for a string: white space around, an optional sign, decimal digits with single
  underscores between them; \<open>None\<close> stands for the \<open>ValueError\<close> on anything else.
\<close>

definition digit_value :: "char \<Rightarrow> nat option" where
  "digit_value c =
     (let n = (of_char c :: nat) in if 48 \<le> n \<and> n \<le> 57 then Some (n - 48) else None)"

fun digits_value :: "nat \<Rightarrow> string \<Rightarrow> nat option" where
  "digits_value acc [] = None"
| "digits_value acc [c] =
     (case digit_value c of None \<Rightarrow> None | Some d \<Rightarrow> Some (10 * acc + d))"
| "digits_value acc (c # d # cs) =
     (case digit_value c of
        None \<Rightarrow> None
      | Some v \<Rightarrow>
          if d = CHR ''_'' then digits_value (10 * acc + v) cs
          else digits_value (10 * acc + v) (d # cs))"

definition py_int :: "string \<Rightarrow> int option" where
  "py_int s =
     (case strip s of
        [] \<Rightarrow> None
      | c # cs \<Rightarrow>
          if c = CHR ''-'' then map_option (\<lambda>n. - int n) (digits_value 0 cs)
          else if c = CHR ''+'' then map_option int (digits_value 0 cs)
          else map_option int (digits_value 0 (c # cs)))"

text \<open>
  \<open>d[k] = v\<close> and \<open>d.update(other)\<close> on a dict in insertion order: a key already there
  keeps its place, a new key goes to the end.
\<close>

fun dict_set :: "string \<Rightarrow> string \<Rightarrow> dict \<Rightarrow> dict" where
  "dict_set k v [] = [(k, v)]"
| "dict_set k v ((k', v') # d) = (if k' = k then (k, v) # d else (k', v') # dict_set k v d)"

fun dict_update :: "dict \<Rightarrow> dict \<Rightarrow> dict" where
  "dict_update d [] = d"
| "dict_update d ((k, v) # other) = dict_update (dict_set k v d) other"

text \<open>\<open>random.choice(xs)\<close> with the random draw \<open>r\<close>; \<open>random.randint(a, b)\<close> likewise.\<close>

definition choice :: "'a list \<Rightarrow> nat \<Rightarrow> 'a" where
  "choice xs r = xs ! (r mod length xs)"

definition randint :: "nat \<Rightarrow> nat \<Rightarrow> nat \<Rightarrow> nat" where
  "randint a b r = a + r mod (b - a + 1)"

section \<open>The HTTP client (utils/http.py)\<close>

subsection \<open>Client, responses, environment\<close>

text \<open>
  The attributes of \<open>EnhancedHttpClient\<close> that its methods read. A compression module that
  could not be imported is \<open>None\<close>; a decompression that raises returns \<open>None\<close>. The
  argument of \<open>zlib\<close> tells whether the call is the raw one, \<open>-zlib.MAX_WBITS\<close>.
\<close>

record client =
  use_proxies :: bool
  proxy_list :: "string list"
  gzip :: "(bytes \<Rightarrow> bytes option) option"
  brotli :: "(bytes \<Rightarrow> bytes option) option"
  zlib :: "(bool \<Rightarrow> bytes \<Rightarrow> bytes option) option"

text \<open>
  Lines 47-55 of \<open>__init__\<close>: proxy usage is switched off when no proxy is configured.
\<close>

definition init_client ::
    "bool \<Rightarrow> string list \<Rightarrow> (bytes \<Rightarrow> bytes option) option \<Rightarrow>
     (bytes \<Rightarrow> bytes option) option \<Rightarrow> (bool \<Rightarrow> bytes \<Rightarrow> bytes option) option \<Rightarrow> client" where
  "init_client use_proxies0 proxy_list0 gz br zl =
     (let self = \<lparr>use_proxies = use_proxies0, proxy_list = proxy_list0, gzip = gz,
                  brotli = br, zlib = zl\<rparr>
      in if use_proxies self \<and> proxy_list self = [] then self\<lparr>use_proxies := False\<rparr> else self)"

text \<open>
  An \<open>httpx.Response\<close> as \<open>get\<close> reads it: the status, the length of the redirect
  history, the three headers it looks up (\<open>None\<close> when the header is missing), the decoded
  text and the raw content.
\<close>

record response =
  status_code :: int
  history :: nat
  hdr_retry_after :: "string option"
  hdr_content_encoding :: "string option"
  hdr_content_type :: "string option"
  resp_text :: string
  content :: bytes

text \<open>The keyword arguments of \<open>get\<close>: the two keys it pops, and the rest.\<close>

record kwargs =
  kw_headers :: "dict option"
  kw_cookies :: "dict option"
  kw_rest :: dict

text \<open>What one attempt sends, and the events of a call in the order they happen.\<close>

record sent =
  s_attempt :: nat
  s_url :: string
  s_profile :: string
  s_headers :: dict
  s_cookies :: dict
  s_proxy :: "string option"
  s_kwargs :: dict

text \<open>
  The three sleeps of \<open>get\<close>. The first two durations are random floats, drawn from
  \<open>uniform(2.0 * n, 5.0 * n)\<close> and \<open>uniform(0.5, 2.0) * (1 + n)\<close>: the event records
  \<open>n\<close>. The third is the integer of the \<open>Retry-After\<close> header.
\<close>

datatype delay = Retry_delay nat | Human_delay nat | Retry_after int

datatype event = Sleep delay | Request sent

text \<open>
  Everything a call of \<open>get\<close> takes from outside: what the transport answers to the
  \<open>n\<close>-th request of the call (an exception or a response), the random draws, the clock,
  and the codec registry of Python (\<open>None\<close> for an unknown encoding name; a codec
  returns \<open>None\<close> where it raises \<open>UnicodeDecodeError\<close>).
\<close>

record env =
  transport :: "nat \<Rightarrow> error + response"
  browser_choice :: "nat \<Rightarrow> nat"
  referer_choice :: "nat \<Rightarrow> nat"
  proxy_choice :: "nat \<Rightarrow> nat"
  proxy_rechoice :: "nat \<Rightarrow> nat"
  session_depth_draw :: nat
  width_draw :: nat
  height_draw :: nat
  clock :: int
  retry_session_depth_draw :: "nat \<Rightarrow> nat"
  retry_width_draw :: "nat \<Rightarrow> nat"
  retry_height_draw :: "nat \<Rightarrow> nat"
  retry_clock :: "nat \<Rightarrow> int"
  retry_visit_draw :: "nat \<Rightarrow> nat"
  codecs :: "string \<Rightarrow> (bytes \<Rightarrow> string option) option"

subsection \<open>\<open>_get_browser_headers\<close>, lines 84-178\<close>

record browser =
  b_name :: string
  user_agent :: string
  platform :: string
  sec_ch_ua :: "string option"
  sec_ch_ua_mobile :: "string option"
  sec_ch_ua_platform :: "string option"

definition browsers :: "browser list" where
  \<open>browsers =
     [\<lparr>b_name = ''Chrome Windows'',
       user_agent = ''Mozilla/5.0 (Windows NT 10.0; Win64; x64) AppleWebKit/537.36 (KHTML, like Gecko) Chrome/112.0.0.0 Safari/537.36'',
       platform = ''Windows'',
       sec_ch_ua = Some ''"Chromium";v="112", "Google Chrome";v="112", "Not:A-Brand";v="99"'',
       sec_ch_ua_mobile = Some ''?0'',
       sec_ch_ua_platform = Some ''"Windows"''\<rparr>,
      \<lparr>b_name = ''Chrome macOS'',
       user_agent = ''Mozilla/5.0 (Macintosh; Intel Mac OS X 10_15_7) AppleWebKit/537.36 (KHTML, like Gecko) Chrome/112.0.0.0 Safari/537.36'',
       platform = ''macOS'',
       sec_ch_ua = Some ''"Chromium";v="112", "Google Chrome";v="112", "Not:A-Brand";v="99"'',
       sec_ch_ua_mobile = Some ''?0'',
       sec_ch_ua_platform = Some ''"macOS"''\<rparr>,
      \<lparr>b_name = ''Chrome Linux'',
       user_agent = ''Mozilla/5.0 (X11; Linux x86_64) AppleWebKit/537.36 (KHTML, like Gecko) Chrome/112.0.0.0 Safari/537.36'',
       platform = ''Linux'',
       sec_ch_ua = Some ''"Chromium";v="112", "Google Chrome";v="112", "Not:A-Brand";v="99"'',
       sec_ch_ua_mobile = Some ''?0'',
       sec_ch_ua_platform = Some ''"Linux"''\<rparr>,
      \<lparr>b_name = ''Firefox Windows'',
       user_agent = ''Mozilla/5.0 (Windows NT 10.0; Win64; x64; rv:109.0) Gecko/20100101 Firefox/109.0'',
       platform = ''Windows'',
       sec_ch_ua = None, sec_ch_ua_mobile = None, sec_ch_ua_platform = None\<rparr>,
      \<lparr>b_name = ''Safari macOS'',
       user_agent = ''Mozilla/5.0 (Macintosh; Intel Mac OS X 10_15_7) AppleWebKit/605.1.15 (KHTML, like Gecko) Version/16.4 Safari/605.1.15'',
       platform = ''macOS'',
       sec_ch_ua = None, sec_ch_ua_mobile = None, sec_ch_ua_platform = None\<rparr>,
      \<lparr>b_name = ''Edge Windows'',
       user_agent = ''Mozilla/5.0 (Windows NT 10.0; Win64; x64) AppleWebKit/537.36 (KHTML, like Gecko) Chrome/112.0.0.0 Safari/537.36 Edg/112.0.1722.48'',
       platform = ''Windows'',
       sec_ch_ua = Some ''"Chromium";v="112", "Microsoft Edge";v="112", "Not:A-Brand";v="99"'',
       sec_ch_ua_mobile = Some ''?0'',
       sec_ch_ua_platform = Some ''"Windows"''\<rparr>]\<close>

definition referers :: "string list" where
  "referers =
     [''https://www.google.com/'', ''https://www.google.nl/'', ''https://www.bing.com/'',
      ''https://duckduckgo.com/'', ''https://www.startpage.com/'']"

text \<open>
  The two random draws are arguments. The three \<open>sec-ch-ua\<close> headers are set when
  \<open>sec_ch_ua\<close> is neither \<open>None\<close> nor empty; in the catalog the other two fields are
  then set as well.
\<close>

definition get_browser_headers :: "nat \<Rightarrow> nat \<Rightarrow> dict" where
  "get_browser_headers browser_draw referer_draw =
     (let browser_profile = choice browsers browser_draw;
          headers =
            [(''User-Agent'', user_agent browser_profile),
             (''Accept'', ''text/html,application/xhtml+xml,application/xml;q=0.9,image/avif,image/webp,image/apng,*/*;q=0.8,application/signed-exchange;v=b3;q=0.7''),
             (''Accept-Language'', ''en-US,en;q=0.9,nl;q=0.8''),
             (''Accept-Encoding'', ''gzip, deflate, br''),
             (''Connection'', ''keep-alive''),
             (''Upgrade-Insecure-Requests'', ''1''),
             (''Cache-Control'', ''max-age=0''),
             (''DNT'', ''1'')];
          headers =
            (if contains ''Chrome'' (b_name browser_profile) \<or>
                contains ''Edge'' (b_name browser_profile)
             then dict_update headers
                    [(''Sec-Fetch-Dest'', ''document''),
                     (''Sec-Fetch-Mode'', ''navigate''),
                     (''Sec-Fetch-Site'', ''none''),
                     (''Sec-Fetch-User'', ''?1''),
                     (''Priority'', ''u=0, i'')]
             else headers);
          headers =
            (case (sec_ch_ua browser_profile, sec_ch_ua_mobile browser_profile,
                   sec_ch_ua_platform browser_profile) of
               (Some ua, Some mobile, Some plat) \<Rightarrow>
                 if ua \<noteq> [] then
                   dict_set ''sec-ch-ua-platform'' plat
                     (dict_set ''sec-ch-ua-mobile'' mobile (dict_set ''sec-ch-ua'' ua headers))
                 else headers
             | _ \<Rightarrow> headers)
      in dict_set ''Referer'' (choice referers referer_draw) headers)"

text \<open>\<open>_get_random_proxy\<close>, lines 180-184.\<close>

definition get_random_proxy :: "client \<Rightarrow> nat \<Rightarrow> string option" where
  "get_random_proxy self r =
     (if \<not> use_proxies self \<or> proxy_list self = [] then None
      else Some (choice (proxy_list self) r))"

subsection \<open>The codec layer, lines 186-270\<close>

text \<open>\<open>_try_decompress_content\<close>: every exception of a library is caught.\<close>

definition try_decompress_content :: "client \<Rightarrow> bytes \<Rightarrow> string option \<Rightarrow> bytes" where
  "try_decompress_content self content0 encoding0 =
     (case encoding0 of
        None \<Rightarrow> content0
      | Some enc \<Rightarrow>
          if enc = [] then content0
          else
            (let encoding = lower enc;
                 by_gzip =
                   (if contains ''gzip'' encoding
                    then (case gzip self of None \<Rightarrow> None | Some decompress \<Rightarrow> decompress content0)
                    else None)
             in case by_gzip of
                  Some out \<Rightarrow> out
                | None \<Rightarrow>
                    (let by_brotli =
                           (if contains ''br'' encoding
                            then (case brotli self of
                                    None \<Rightarrow> None
                                  | Some decompress \<Rightarrow> decompress content0)
                            else None)
                     in case by_brotli of
                          Some out \<Rightarrow> out
                        | None \<Rightarrow>
                            (if contains ''deflate'' encoding
                             then (case zlib self of
                                     None \<Rightarrow> content0
                                   | Some decompress \<Rightarrow>
                                       (case decompress False content0 of
                                          Some out \<Rightarrow> out
                                        | None \<Rightarrow>
                                            (case decompress True content0 of
                                               Some out \<Rightarrow> out
                                             | None \<Rightarrow> content0)))
                             else content0))))"

text \<open>
  \<open>content.decode(name)\<close>: \<open>LookupError\<close> for a name the registry does not know,
  \<open>UnicodeDecodeError\<close> where the codec fails.
\<close>

definition bytes_decode ::
    "(string \<Rightarrow> (bytes \<Rightarrow> string option) option) \<Rightarrow> bytes \<Rightarrow> string \<Rightarrow> error + string" where
  "bytes_decode registry content0 name =
     (case registry name of
        None \<Rightarrow> Inl LookupError
      | Some codec \<Rightarrow>
          (case codec content0 of None \<Rightarrow> Inl UnicodeDecodeError | Some s \<Rightarrow> Inr s))"

text \<open>
  The loop over \<open>encodings\<close> of \<open>_decode_content\<close>, which catches
  \<open>UnicodeDecodeError\<close> only, and the last \<open>content.decode('latin1')\<close>.
\<close>

fun decode_ladder ::
    "(string \<Rightarrow> (bytes \<Rightarrow> string option) option) \<Rightarrow> bytes \<Rightarrow> string list \<Rightarrow> error + string" where
  "decode_ladder registry content0 [] = bytes_decode registry content0 ''latin1''"
| "decode_ladder registry content0 (encoding # encodings) =
     (case bytes_decode registry content0 encoding of
        Inr s \<Rightarrow> Inr s
      | Inl UnicodeDecodeError \<Rightarrow> decode_ladder registry content0 encodings
      | Inl err \<Rightarrow> Inl err)"

definition decode_content ::
    "(string \<Rightarrow> (bytes \<Rightarrow> string option) option) \<Rightarrow> bytes \<Rightarrow> string option \<Rightarrow> error + string" where
  "decode_content registry content0 charset =
     (let common = decode_ladder registry content0 [''utf-8'', ''latin1'', ''cp1252'', ''iso-8859-1'']
      in case charset of
           None \<Rightarrow> common
         | Some cs \<Rightarrow>
             if cs = [] then common
             else (case bytes_decode registry content0 cs of
                     Inr s \<Rightarrow> Inr s
                   | Inl UnicodeDecodeError \<Rightarrow> common
                   | Inl err \<Rightarrow> Inl err))"

text \<open>\<open>_extract_charset\<close>, with its loop over the parts of the header.\<close>

fun first_charset :: "string list \<Rightarrow> string option" where
  "first_charset [] = None"
| "first_charset (part # parts) =
     (if contains ''charset='' (lower part)
      then Some (lower (strip (last (split_on CHR ''='' part))))
      else first_charset parts)"

definition extract_charset :: "string option \<Rightarrow> string option" where
  "extract_charset content_type =
     (case content_type of
        None \<Rightarrow> None
      | Some ct \<Rightarrow>
          if ct = [] then None
          else if contains ''charset='' (lower ct) then first_charset (split_on CHR '';'' ct)
          else None)"

subsection \<open>The catalog \<open>browser_profiles\<close> of \<open>get\<close>, lines 292-410\<close>

text \<open>
  The first entry has neither \<open>headers\<close> nor \<open>cookies\<close>. The \<open>Referer\<close> of the second
  entry indexes \<open>url.split('/')\<close> at 0 and 2: a URL with fewer than two slashes raises
  \<open>IndexError\<close> before any request is made.
\<close>

record profile =
  p_name :: string
  custom :: bool
  p_headers :: "dict option"
  p_cookies :: "dict option"

definition resolution :: "nat \<Rightarrow> nat \<Rightarrow> string" where
  "resolution w h =
     str_int (choice [1920, 1440, 1366, 1280] w) @ ''x'' @ str_int (choice [1080, 900, 768, 720] h)"

definition browser_profiles :: "env \<Rightarrow> string \<Rightarrow> error + profile list" where
  \<open>browser_profiles e url' =
     (let parts = split_on CHR ''/'' url'
      in if length parts < 3 then Inl IndexError
         else Inr
           [\<lparr>p_name = ''Default Browser'', custom = False, p_headers = None, p_cookies = None\<rparr>,
            \<lparr>p_name = ''Desktop Chrome'', custom = True,
             p_headers = Some
               [(''User-Agent'', ''Mozilla/5.0 (Windows NT 10.0; Win64; x64) AppleWebKit/537.36 (KHTML, like Gecko) Chrome/114.0.0.0 Safari/537.36''),
                (''Accept'', ''text/html,application/xhtml+xml,application/xml;q=0.9,image/avif,image/webp,image/apng,*/*;q=0.8''),
                (''Accept-Language'', ''en-US,en;q=0.9,nl;q=0.8''),
                (''Accept-Encoding'', ''gzip, deflate, br''),
                (''Connection'', ''keep-alive''),
                (''Referer'', parts ! 0 @ ''//'' @ parts ! 2 @ ''/''),
                (''Sec-Fetch-Dest'', ''document''),
                (''Sec-Fetch-Mode'', ''navigate''),
                (''Sec-Fetch-Site'', ''same-origin''),
                (''Sec-Fetch-User'', ''?1''),
                (''Upgrade-Insecure-Requests'', ''1''),
                (''Cache-Control'', ''max-age=0'')],
             p_cookies = Some
               [(''session_depth'', str_int (int (randint 1 5 (session_depth_draw e)))),
                (''has_js'', ''1''),
                (''resolution'', resolution (width_draw e) (height_draw e)),
                (''accept_cookies'', ''true'')]\<rparr>,
            \<lparr>p_name = ''Mobile Safari'', custom = True,
             p_headers = Some
               [(''User-Agent'', ''Mozilla/5.0 (iPhone; CPU iPhone OS 16_5 like Mac OS X) AppleWebKit/605.1.15 (KHTML, like Gecko) Version/16.5 Mobile/15E148 Safari/604.1''),
                (''Accept'', ''text/html,application/xhtml+xml,application/xml;q=0.9,*/*;q=0.8''),
                (''Accept-Language'', ''nl-NL,nl;q=0.9''),
                (''Accept-Encoding'', ''gzip, deflate, br''),
                (''Connection'', ''keep-alive''),
                (''Referer'', ''https://www.google.com/''),
                (''Cache-Control'', ''no-cache''),
                (''Pragma'', ''no-cache'')],
             p_cookies = Some
               [(''session_depth'', ''3''),
                (''has_js'', ''1''),
                (''resolution'', ''375x812''),
                (''accept_cookies'', ''true''),
                (''cookieConsent'', ''true''),
                (''device'', ''mobile'')]\<rparr>,
            \<lparr>p_name = ''Desktop Safari'', custom = True,
             p_headers = Some
               [(''User-Agent'', ''Mozilla/5.0 (Macintosh; Intel Mac OS X 10_15_7) AppleWebKit/605.1.15 (KHTML, like Gecko) Version/16.5 Safari/605.1.15''),
                (''Accept'', ''text/html,application/xhtml+xml,application/xml;q=0.9,*/*;q=0.8''),
                (''Accept-Language'', ''nl-NL,nl;q=0.8,en-US;q=0.5,en;q=0.3''),
                (''Accept-Encoding'', ''gzip, deflate, br''),
                (''Connection'', ''keep-alive''),
                (''DNT'', ''1''),
                (''Upgrade-Insecure-Requests'', ''1'')],
             p_cookies = Some
               [(''session_depth'', ''5''),
                (''has_js'', ''1''),
                (''resolution'', ''1440x900''),
                (''accept_cookies'', ''true''),
                (''visited_before'', ''true''),
                (''lastVisit'', str_int (clock e)),
                (''consent_level'', ''ALL'')]\<rparr>,
            \<lparr>p_name = ''Firefox Linux'', custom = True,
             p_headers = Some
               [(''User-Agent'', ''Mozilla/5.0 (X11; Ubuntu; Linux x86_64; rv:109.0) Gecko/20100101 Firefox/113.0''),
                (''Accept'', ''text/html,application/xhtml+xml,application/xml;q=0.9,image/avif,image/webp,*/*;q=0.8''),
                (''Accept-Language'', ''en-US,en;q=0.5''),
                (''Accept-Encoding'', ''gzip, deflate, br''),
                (''Connection'', ''keep-alive''),
                (''DNT'', ''1''),
                (''Upgrade-Insecure-Requests'', ''1'')],
             p_cookies = Some
               [(''session_depth'', ''2''),
                (''has_js'', ''1''),
                (''resolution'', ''1920x1080''),
                (''accept_cookies'', ''true'')]\<rparr>,
            \<lparr>p_name = ''Edge Windows'', custom = True,
             p_headers = Some
               [(''User-Agent'', ''Mozilla/5.0 (Windows NT 10.0; Win64; x64) AppleWebKit/537.36 (KHTML, like Gecko) Chrome/113.0.0.0 Safari/537.36 Edg/113.0.1774.57''),
                (''Accept'', ''text/html,application/xhtml+xml,application/xml;q=0.9,image/webp,image/apng,*/*;q=0.8,application/signed-exchange;v=b3;q=0.7''),
                (''Accept-Language'', ''en-US,en;q=0.9''),
                (''Accept-Encoding'', ''gzip, deflate, br''),
                (''Connection'', ''keep-alive''),
                (''Referer'', ''https://www.bing.com/''),
                (''Sec-Fetch-Dest'', ''document''),
                (''Sec-Fetch-Mode'', ''navigate''),
                (''Sec-Fetch-Site'', ''cross-site''),
                (''Sec-Fetch-User'', ''?1''),
                (''Upgrade-Insecure-Requests'', ''1''),
                (''sec-ch-ua'', ''"Microsoft Edge";v="113", "Chromium";v="113", "Not-A.Brand";v="24"''),
                (''sec-ch-ua-mobile'', ''?0''),
                (''sec-ch-ua-platform'', ''"Windows"'')],
             p_cookies = Some
               [(''session_depth'', ''4''),
                (''has_js'', ''1''),
                (''resolution'', ''1366x768''),
                (''accept_cookies'', ''true''),
                (''visited_before'', ''true'')]\<rparr>])\<close>

subsection \<open>One iteration of the loop of \<open>get\<close>, lines 413-550\<close>

text \<open>
  The local state of \<open>get\<close> between iterations: what is left of \<open>kwargs\<close>, the catalog
  (a profile's \<open>headers\<close> dict is used without a copy, so an update of the headers of an
  attempt writes into the catalog), the variable \<open>response\<close> (unbound at first), and the
  events so far. The counter \<open>antibot_retry_count\<close> is the argument \<open>n\<close>.
\<close>

record loop_state =
  kwargs_var :: kwargs
  catalog_var :: "profile list"
  response_var :: "response option"
  events :: "event list"

text \<open>Whether the dict \<open>headers\<close> of the attempt is a new one or the one of a catalog entry.\<close>

datatype header_object = Fresh | Of_profile nat

text \<open>\<open>kwargs.pop("cookies", {})\<close>\<close>

definition pop_cookies :: "kwargs \<Rightarrow> dict \<times> kwargs" where
  "pop_cookies kw = ((case kw_cookies kw of None \<Rightarrow> [] | Some c \<Rightarrow> c), kw\<lparr>kw_cookies := None\<rparr>)"

text \<open>Lines 415-441: the profile, the headers and the cookies of attempt \<open>n\<close>.\<close>

definition select_profile ::
    "env \<Rightarrow> nat \<Rightarrow> loop_state \<Rightarrow>
     error + (profile \<times> dict \<times> header_object \<times> dict \<times> kwargs)" where
  "select_profile e n st =
     (let catalog = catalog_var st; kw = kwargs_var st
      in if catalog = [] then Inl IndexError
         else if n = 0 then
           (let current_profile = catalog ! 0;
                headers = get_browser_headers (browser_choice e n) (referer_choice e n);
                (cookies, kw) = pop_cookies kw
            in Inr (current_profile, headers, Fresh, cookies, kw))
         else
           (let profile_index = min n (length catalog - 1);
                current_profile = catalog ! profile_index
            in if custom current_profile then
                 (case (p_headers current_profile, p_cookies current_profile) of
                    (Some headers, Some cookies) \<Rightarrow>
                      Inr (current_profile, headers, Of_profile profile_index, cookies, kw)
                  | _ \<Rightarrow> Inl KeyError)
               else
                 (let headers = get_browser_headers (browser_choice e n) (referer_choice e n);
                      (cookies, kw) = pop_cookies kw;
                      cookies =
                        dict_update cookies
                          [(''session_depth'',
                              str_int (int (randint 5 10 (retry_session_depth_draw e n)))),
                           (''has_js'', ''1''),
                           (''resolution'',
                              resolution (retry_width_draw e n) (retry_height_draw e n)),
                           (''accept_cookies'', ''true''),
                           (''visited_before'', ''true''),
                           (''lastVisit'',
                              str_int (retry_clock e n -
                                       int (randint 3600 86400 (retry_visit_draw e n))))]
                  in Inr (current_profile, headers, Fresh, cookies, kw))))"

text \<open>Lines 444-446: \<open>headers.update(kwargs.pop("headers"))\<close> when the key is there.\<close>

definition apply_custom_headers ::
    "dict \<Rightarrow> header_object \<Rightarrow> kwargs \<Rightarrow> profile list \<Rightarrow> dict \<times> kwargs \<times> profile list" where
  "apply_custom_headers headers obj kw catalog =
     (case kw_headers kw of
        None \<Rightarrow> (headers, kw, catalog)
      | Some custom_headers \<Rightarrow>
          (let headers = dict_update headers custom_headers
           in (headers, kw\<lparr>kw_headers := None\<rparr>,
               (case obj of
                  Fresh \<Rightarrow> catalog
                | Of_profile i \<Rightarrow> catalog[i := (catalog ! i)\<lparr>p_headers := Some headers\<rparr>]))))"

text \<open>Lines 449-460: the proxy of the attempt, if any.\<close>

definition pick_proxy :: "client \<Rightarrow> env \<Rightarrow> nat \<Rightarrow> string option" where
  "pick_proxy self e n =
     (let proxy = (if use_proxies self then get_random_proxy self (proxy_choice e n) else None);
          proxy = (if present proxy \<and> n > 0 then get_random_proxy self (proxy_rechoice e n)
                   else proxy)
      in if present proxy then proxy else None)"

text \<open>
  Lines 415-472: everything before the request. The result is the request to send and the
  state with the sleeps recorded.
\<close>

definition prepare ::
    "client \<Rightarrow> env \<Rightarrow> string \<Rightarrow> nat \<Rightarrow> loop_state \<Rightarrow> error + (sent \<times> loop_state)" where
  "prepare self e url' n st =
     (case select_profile e n st of
        Inl err \<Rightarrow> Inl err
      | Inr (current_profile, headers, obj, cookies, kw) \<Rightarrow>
          (let (headers, kw, catalog) = apply_custom_headers headers obj kw (catalog_var st);
               proxy = pick_proxy self e n;
               request =
                 \<lparr>s_attempt = n, s_url = url', s_profile = p_name current_profile,
                  s_headers = headers, s_cookies = cookies, s_proxy = proxy,
                  s_kwargs = kw_rest kw\<rparr>
           in Inr (request,
                   st\<lparr>kwargs_var := kw, catalog_var := catalog,
                      events := events st @ (if n > 0 then [Sleep (Retry_delay n)] else []) @
                                [Sleep (Human_delay n)]\<rparr>)))"

text \<open>Lines 497-510: the manual decompression and decoding of a suspicious page.\<close>

definition settle_text :: "client \<Rightarrow> env \<Rightarrow> response \<Rightarrow> error + response" where
  "settle_text self e response =
     (let content_encoding = (case hdr_content_encoding response of None \<Rightarrow> [] | Some v \<Rightarrow> v);
          content_type = (case hdr_content_type response of None \<Rightarrow> [] | Some v \<Rightarrow> v);
          charset = extract_charset (Some content_type)
      in if status_code response = 200 \<and>
            (resp_text response = [] \<or> length (resp_text response) < 100 \<or>
             CHR 0x00 \<in> set (content response))
         then
           (let decompressed_content =
                  try_decompress_content self (content response) (Some content_encoding)
            in case decode_content (codecs e) decompressed_content charset of
                 Inl err \<Rightarrow> Inl err
               | Inr t \<Rightarrow> Inr (response\<lparr>resp_text := t\<rparr>))
         else Inr response)"

text \<open>Lines 515-532.\<close>

definition anti_bot_patterns :: "string list" where
  "anti_bot_patterns =
     [''Je bent bijna op de pagina die je zoekt'',
      ''We houden ons platform graag veilig en spamvrij'',
      ''robot'',
      ''captcha'',
      ''CloudFare'',
      ''DDoS protection'',
      ''Ik ben geen robot'',
      ''Just a moment'']"

definition anti_bot_detected :: "string \<Rightarrow> bool" where
  "anti_bot_detected t = list_ex (\<lambda>pattern. contains (lower pattern) (lower t)) anti_bot_patterns"

text \<open>How an iteration ends: \<open>return response\<close>, an exception, or \<open>continue\<close>.\<close>

datatype outcome = Returns response | Raises error | Continue

text \<open>Lines 477-543: what \<open>get\<close> does with the response of attempt \<open>n\<close>.\<close>

definition check_response ::
    "client \<Rightarrow> env \<Rightarrow> bool \<Rightarrow> int \<Rightarrow> nat \<Rightarrow> response \<Rightarrow> loop_state \<Rightarrow> outcome \<times> loop_state" where
  "check_response self e retry_anti_bot max_antibot_retries n response st =
     (if history response > 10 then (Raises (RequestError ''Too many redirects''), st)
      else if status_code response = 429 then
        (case py_int (case hdr_retry_after response of None \<Rightarrow> ''5'' | Some v \<Rightarrow> v) of
           None \<Rightarrow> (Raises ValueError, st)
         | Some retry_after \<Rightarrow>
             (Raises (RequestError (''Rate limited: '' @ str_int (status_code response))),
              st\<lparr>events := events st @ [Sleep (Retry_after retry_after)]\<rparr>))
      else if status_code response \<ge> 400 then
        (if status_code response = 404 then (Returns response, st)
         else (Raises (RequestError (''HTTP error: '' @ str_int (status_code response))), st))
      else
        (case settle_text self e response of
           Inl err \<Rightarrow> (Raises err, st)
         | Inr response \<Rightarrow>
             (let st = st\<lparr>response_var := Some response\<rparr>
              in if retry_anti_bot \<and> int n < max_antibot_retries \<and>
                    anti_bot_detected (resp_text response)
                 then (Continue, st)
                 else (Returns response, st))))"

text \<open>
  One iteration. A key \<open>cookies\<close> still in \<open>kwargs\<close> at the call
  \<open>client.get(url, headers=headers, cookies=cookies, **kwargs)\<close> is a \<open>TypeError\<close>. An
  exception of the transport is logged and raised again.
\<close>

definition attempt ::
    "client \<Rightarrow> env \<Rightarrow> string \<Rightarrow> bool \<Rightarrow> int \<Rightarrow> nat \<Rightarrow> loop_state \<Rightarrow> outcome \<times> loop_state" where
  "attempt self e url' retry_anti_bot max_antibot_retries n st =
     (case prepare self e url' n st of
        Inl err \<Rightarrow> (Raises err, st)
      | Inr (request, st) \<Rightarrow>
          if kw_cookies (kwargs_var st) \<noteq> None then (Raises TypeError, st)
          else
            (let st = st\<lparr>events := events st @ [Request request]\<rparr>
             in case transport e n of
                  Inl err \<Rightarrow> (Raises err, st)
                | Inr response \<Rightarrow>
                    check_response self e retry_anti_bot max_antibot_retries n response
                      (st\<lparr>response_var := Some response\<rparr>)))"

subsection \<open>\<open>get\<close> and \<open>get_with_fallback\<close>\<close>

text \<open>
  The loop \<open>while antibot_retry_count <= max_antibot_retries\<close>, and the
  \<open>return response\<close> after it. The result is what the call returns or raises, with the
  events of the call.
\<close>

function get_loop ::
    "client \<Rightarrow> env \<Rightarrow> string \<Rightarrow> bool \<Rightarrow> int \<Rightarrow> nat \<Rightarrow> loop_state \<Rightarrow>
     (error + response) \<times> event list" where
  "get_loop self e url' retry_anti_bot max_antibot_retries n st =
     (if int n \<le> max_antibot_retries then
        (case attempt self e url' retry_anti_bot max_antibot_retries n st of
           (Returns response, st') \<Rightarrow> (Inr response, events st')
         | (Raises err, st') \<Rightarrow> (Inl err, events st')
         | (Continue, st') \<Rightarrow>
             get_loop self e url' retry_anti_bot max_antibot_retries (Suc n) st')
      else
        (case response_var st of
           None \<Rightarrow> (Inl UnboundLocalError, events st)
         | Some response \<Rightarrow> (Inr response, events st)))"
  by pat_completeness auto
termination
  by (relation "measure (\<lambda>(self, e, url', retry_anti_bot, max_antibot_retries, n, st).
        nat (max_antibot_retries + 1 - int n))") auto

declare get_loop.simps [simp del]

definition get ::
    "client \<Rightarrow> env \<Rightarrow> string \<Rightarrow> bool \<Rightarrow> int \<Rightarrow> kwargs \<Rightarrow> (error + response) \<times> event list" where
  "get self e url' retry_anti_bot max_antibot_retries kw =
     (case browser_profiles e url' of
        Inl err \<Rightarrow> (Inl err, [])
      | Inr catalog \<Rightarrow>
          get_loop self e url' retry_anti_bot max_antibot_retries 0
            \<lparr>kwargs_var = kw, catalog_var = catalog, response_var = None, events = []\<rparr>)"

text \<open>\<open>except httpx.RequestError\<close>: \<open>TimeoutException\<close> is a subclass.\<close>

fun is_request_error :: "error \<Rightarrow> bool" where
  "is_request_error (RequestError msg) = True"
| "is_request_error TimeoutException = True"
| "is_request_error err = False"

text \<open>
  \<open>get_with_fallback\<close>, lines 555-583. The two calls of \<open>get\<close> meet two environments. The
  result comes with the client after the call.
\<close>

definition get_with_fallback ::
    "client \<Rightarrow> env \<Rightarrow> env \<Rightarrow> string \<Rightarrow> bool \<Rightarrow> int \<Rightarrow> kwargs \<Rightarrow>
     ((error + response) \<times> event list) \<times> client" where
  "get_with_fallback self e1 e2 url' retry_anti_bot max_antibot_retries kw =
     (if \<not> use_proxies self
      then (get self e1 url' retry_anti_bot max_antibot_retries kw, self)
      else
        (case get self e1 url' retry_anti_bot max_antibot_retries kw of
           (Inr response, evs) \<Rightarrow> ((Inr response, evs), self)
         | (Inl err, evs) \<Rightarrow>
             if is_request_error err then
               (let self = self\<lparr>use_proxies := False\<rparr>;
                    (result, evs2) = get self e2 url' retry_anti_bot max_antibot_retries kw;
                    self = self\<lparr>use_proxies := True\<rparr>
                in ((result, evs @ evs2), self))
             else ((Inl err, evs), self)))"

text \<open>The requests among the events of a call, in order.\<close>

fun requests :: "event list \<Rightarrow> sent list" where
  "requests [] = []"
| "requests (Sleep d # evs) = requests evs"
| "requests (Request r # evs) = r # requests evs"

section \<open>Notions of the claims about \<open>get\<close>\<close>

text \<open>The catalog of a call, empty when building it raises.\<close>

definition catalog_of :: "env \<Rightarrow> string \<Rightarrow> profile list" where
  "catalog_of e url' = (case browser_profiles e url' of Inl err \<Rightarrow> [] | Inr catalog \<Rightarrow> catalog)"

text \<open>
  What attempt \<open>n\<close> of a call is claimed to send. The first attempt sends the headers of
  \<open>_get_browser_headers\<close> updated with the caller's headers, and the caller's cookies. A
  retry sends the headers and the cookies of the catalog entry at index
  \<open>min(n, len(browser_profiles) - 1)\<close>: neither depends on the \<open>headers\<close> and
  \<open>cookies\<close> of the caller.
\<close>

definition claimed_request :: "client \<Rightarrow> env \<Rightarrow> string \<Rightarrow> kwargs \<Rightarrow> nat \<Rightarrow> sent" where
  "claimed_request self e url' kw n =
     (if n = 0 then
        \<lparr>s_attempt = 0, s_url = url', s_profile = p_name (catalog_of e url' ! 0),
         s_headers =
           dict_update (get_browser_headers (browser_choice e 0) (referer_choice e 0))
             (case kw_headers kw of None \<Rightarrow> [] | Some custom_headers \<Rightarrow> custom_headers),
         s_cookies = (case kw_cookies kw of None \<Rightarrow> [] | Some c \<Rightarrow> c),
         s_proxy = pick_proxy self e 0, s_kwargs = kw_rest kw\<rparr>
      else
        (let selected = catalog_of e url' ! min n (length (catalog_of e url') - 1)
         in \<lparr>s_attempt = n, s_url = url', s_profile = p_name selected,
             s_headers = (case p_headers selected of None \<Rightarrow> [] | Some h \<Rightarrow> h),
             s_cookies = (case p_cookies selected of None \<Rightarrow> [] | Some c \<Rightarrow> c),
             s_proxy = pick_proxy self e n, s_kwargs = kw_rest kw\<rparr>))"

text \<open>
  The page of attempt \<open>n\<close> as \<open>get\<close> inspects it, after the manual decoding where that
  applies; and "attempt \<open>n\<close> yields a 200 response whose body matches an anti-bot
  signature", for a response that passes the redirect check and whose decoding does not
  raise.
\<close>

definition inspected :: "client \<Rightarrow> env \<Rightarrow> nat \<Rightarrow> error + response" where
  "inspected self e n =
     (case transport e n of Inl err \<Rightarrow> Inl err | Inr response \<Rightarrow> settle_text self e response)"

definition blocked :: "client \<Rightarrow> env \<Rightarrow> nat \<Rightarrow> bool" where
  "blocked self e n =
     (case transport e n of
        Inl err \<Rightarrow> False
      | Inr response \<Rightarrow>
          status_code response = 200 \<and> history response \<le> 10 \<and>
          (case settle_text self e response of
             Inl err \<Rightarrow> False
           | Inr response \<Rightarrow> anti_bot_detected (resp_text response)))"

text \<open>A client, an environment with a given transport, and pages for the examples.\<close>

definition client0 :: client where
  "client0 = init_client False [] None None None"

definition env0 :: "(nat \<Rightarrow> error + response) \<Rightarrow> env" where
  "env0 t =
     \<lparr>transport = t, browser_choice = (\<lambda>n. n), referer_choice = (\<lambda>n. 0),
      proxy_choice = (\<lambda>n. 0), proxy_rechoice = (\<lambda>n. 0), session_depth_draw = 2,
      width_draw = 0, height_draw = 0, clock = 1700000000,
      retry_session_depth_draw = (\<lambda>n. 0), retry_width_draw = (\<lambda>n. 0),
      retry_height_draw = (\<lambda>n. 0), retry_clock = (\<lambda>n. 1700000000),
      retry_visit_draw = (\<lambda>n. 0), codecs = (\<lambda>name. None)\<rparr>"

definition page :: "int \<Rightarrow> nat \<Rightarrow> string \<Rightarrow> response" where
  "page status redirects body =
     \<lparr>status_code = status, history = redirects, hdr_retry_after = None,
      hdr_content_encoding = None, hdr_content_type = Some ''text/html; charset=utf-8'',
      resp_text = body, content = body\<rparr>"

definition captcha_body :: string where
  "captcha_body = replicate 100 CHR ''.'' @ ''captcha''"

definition no_kwargs :: kwargs where
  "no_kwargs = \<lparr>kw_headers = None, kw_cookies = None, kw_rest = []\<rparr>"

definition caller_kwargs :: kwargs where
  "caller_kwargs =
     \<lparr>kw_headers = Some [(''User-Agent'', ''letify-test''), (''X-Debug'', ''1'')],
      kw_cookies = Some [(''sid'', ''abc'')], kw_rest = []\<rparr>"

definition url0 :: string where
  "url0 = ''https://www.vbtverhuurmakelaars.nl/woning''"

section \<open>Properties of the deduplication hash\<close>

lemma hihr_hash_input_eq: "hihr_hash_input = vbt_hash_input"
  by (simp add: fun_eq_iff hihr_hash_input_def vbt_hash_input_def hihr_identifiers_def
      vbt_identifiers_def)

lemma hash_input_vbt: "hash_input sc = vbt_hash_input"
  by (cases sc) (simp_all add: hihr_hash_input_eq)

lemma generate_property_hash_eq:
  "generate_property_hash sc md5 u l = md5 (vbt_hash_input u l)"
  by (cases sc)
    (simp_all add: vbt_generate_property_hash_def hihr_generate_property_hash_def
      hihr_hash_input_eq)

lemma append_if_present: "append_if x = [] \<longleftrightarrow> \<not> present x"
  by (cases x) (simp_all add: present_def)

lemma append_if_num_present: "append_if_num tag x = [] \<longleftrightarrow> \<not> present_num x"
  by (cases x) (simp_all add: present_num_def)

lemma vbt_identifiers_Nil:
  "vbt_identifiers l = [] \<longleftrightarrow> \<not> some_identifying_field_present l"
  by (simp add: vbt_identifiers_def some_identifying_field_present_def append_if_present
      append_if_num_present)

lemma vbt_hash_input_present:
  "some_identifying_field_present l \<Longrightarrow>
   vbt_hash_input u l = join ''|'' (filter (\<lambda>x. x \<noteq> []) (vbt_identifiers l))"
  by (simp add: vbt_hash_input_def Let_def vbt_identifiers_Nil)

lemma vbt_identifiers_cong:
  "identifying_fields l1 = identifying_fields l2 \<Longrightarrow> vbt_identifiers l1 = vbt_identifiers l2"
  by (simp add: identifying_fields_def vbt_identifiers_def)

lemma some_present_cong:
  "identifying_fields l1 = identifying_fields l2 \<Longrightarrow>
   some_identifying_field_present l1 = some_identifying_field_present l2"
  by (simp add: identifying_fields_def some_identifying_field_present_def)

text \<open>
  C1. Two listings with equal identifying fields (url, source_id, title, address,
  postal_code, city, living_area, price_numeric), at least one of them present, get the
  same hash: whichever of the two scrapers computes it, whatever random value each call
  draws for its fallback, and whatever the other fields of the listings hold.
\<close>

theorem generate_property_hash_deterministic:
  assumes "identifying_fields l1 = identifying_fields l2"
    and "some_identifying_field_present l1"
  shows "generate_property_hash sc1 md5 u1 l1 = generate_property_hash sc2 md5 u2 l2"
proof -
  have p2: "some_identifying_field_present l2"
    using some_present_cong [OF assms(1)] assms(2) by blast
  have ids: "vbt_identifiers l1 = vbt_identifiers l2"
    by (rule vbt_identifiers_cong [OF assms(1)])
  have "vbt_hash_input u1 l1 = join ''|'' (filter (\<lambda>x. x \<noteq> []) (vbt_identifiers l1))"
    by (rule vbt_hash_input_present [OF assms(2)])
  also have "\<dots> = join ''|'' (filter (\<lambda>x. x \<noteq> []) (vbt_identifiers l2))"
    by (simp only: ids)
  also have "\<dots> = vbt_hash_input u2 l2"
    by (rule vbt_hash_input_present [OF p2, symmetric])
  finally show ?thesis
    by (simp add: generate_property_hash_eq)
qed

theorem generate_property_hash_deterministic_witness:
  "identifying_fields listing_a =
     identifying_fields (listing_a\<lparr>source := ''HollandRijnland'', rooms := Some 3\<rparr>) \<and>
   some_identifying_field_present listing_a \<and>
   (\<forall>md5. generate_property_hash VBTVerhuurmakelaarsScraper md5 ''u1'' listing_a =
      generate_property_hash HurenInHollandRijnland md5 ''u2''
        (listing_a\<lparr>source := ''HollandRijnland'', rooms := Some 3\<rparr>))"
proof -
  have e: "identifying_fields listing_a =
      identifying_fields (listing_a\<lparr>source := ''HollandRijnland'', rooms := Some 3\<rparr>)"
    by (simp add: identifying_fields_def)
  have p: "some_identifying_field_present listing_a"
    by (simp add: some_identifying_field_present_def listing_a_def present_def)
  show ?thesis
    using e p generate_property_hash_deterministic [OF e p] by blast
qed

subsection \<open>Decimal rendering and joining are injective\<close>

lemma digit_char_inj: "a < 10 \<Longrightarrow> b < 10 \<Longrightarrow> digit_char a = digit_char b \<Longrightarrow> a = b"
  by (simp add: digit_char_def split: if_splits) arith

lemma str_nat_chars: "c \<in> set (str_nat n) \<Longrightarrow> \<exists>d<10. c = digit_char d"
proof (induction n rule: str_nat.induct)
  case (1 n)
  show ?case
  proof (cases "n < 10")
    case True
    with "1.prems" show ?thesis by (auto simp: str_nat.simps [of n])
  next
    case False
    with "1.prems" have "c \<in> set (str_nat (n div 10)) \<or> c = digit_char (n mod 10)"
      by (auto simp: str_nat.simps [of n])
    then show ?thesis
    proof
      assume "c \<in> set (str_nat (n div 10))"
      with False "1.IH" show ?thesis by blast
    next
      assume "c = digit_char (n mod 10)"
      moreover have "n mod 10 < 10" by simp
      ultimately show ?thesis by blast
    qed
  qed
qed

lemma str_nat_not_Nil: "str_nat n \<noteq> []"
  by (subst str_nat.simps) simp

lemma str_nat_inj: "str_nat n = str_nat m \<Longrightarrow> n = m"
proof (induction n arbitrary: m rule: str_nat.induct)
  case (1 n)
  show ?case
  proof (cases "n < 10")
    case n: True
    show ?thesis
    proof (cases "m < 10")
      case True
      with n "1.prems" show ?thesis
        by (auto simp: str_nat.simps [of n] str_nat.simps [of m] dest: digit_char_inj)
    next
      case False
      with n "1.prems" have "[digit_char n] = str_nat (m div 10) @ [digit_char (m mod 10)]"
        by (simp add: str_nat.simps [of n] str_nat.simps [of m])
      then have "str_nat (m div 10) = []" by simp
      then show ?thesis by (simp add: str_nat_not_Nil)
    qed
  next
    case n: False
    show ?thesis
    proof (cases "m < 10")
      case True
      with n "1.prems" have "str_nat (n div 10) @ [digit_char (n mod 10)] = [digit_char m]"
        by (simp add: str_nat.simps [of n] str_nat.simps [of m])
      then have "str_nat (n div 10) = []" by simp
      then show ?thesis by (simp add: str_nat_not_Nil)
    next
      case False
      with n "1.prems" have a: "str_nat (n div 10) = str_nat (m div 10)"
        and b: "digit_char (n mod 10) = digit_char (m mod 10)"
        by (auto simp: str_nat.simps [of n] str_nat.simps [of m])
      from "1.IH" [OF n a] have "n div 10 = m div 10" .
      moreover from b have "n mod 10 = m mod 10"
        using digit_char_inj [of "n mod 10" "m mod 10"] by simp
      ultimately show ?thesis
        by (metis div_mult_mod_eq)
    qed
  qed
qed

lemma digit_char_neq: "digit_char d \<noteq> CHR ''-'' \<and> digit_char d \<noteq> CHR ''|''"
  by (simp add: digit_char_def)

lemma str_nat_no_minus: "CHR ''-'' \<notin> set (str_nat n)"
  using str_nat_chars [of "CHR ''-''" n] digit_char_neq by metis

lemma str_nat_no_pipe: "CHR ''|'' \<notin> set (str_nat n)"
  using str_nat_chars [of "CHR ''|''" n] digit_char_neq by metis

lemma str_int_inj: "str_int a = str_int b \<Longrightarrow> a = b"
proof -
  assume e: "str_int a = str_int b"
  have hd: "\<And>n. hd (str_nat n) \<noteq> CHR ''-''"
    using str_nat_no_minus str_nat_not_Nil by (metis hd_in_set)
  show ?thesis
  proof (cases "a < 0")
    case a: True
    show ?thesis
    proof (cases "b < 0")
      case True
      with a e have "nat (- a) = nat (- b)" by (auto simp: str_int_def dest: str_nat_inj)
      with a True show ?thesis by simp
    next
      case False
      with a e have "CHR ''-'' # str_nat (nat (- a)) = str_nat (nat b)" by (simp add: str_int_def)
      then have "hd (str_nat (nat b)) = CHR ''-''" by (metis list.sel(1))
      with hd show ?thesis by blast
    qed
  next
    case a: False
    show ?thesis
    proof (cases "b < 0")
      case True
      with a e have "str_nat (nat a) = CHR ''-'' # str_nat (nat (- b))" by (simp add: str_int_def)
      then have "hd (str_nat (nat a)) = CHR ''-''" by (metis list.sel(1))
      with hd show ?thesis by blast
    next
      case False
      with a e have "nat a = nat b" by (auto simp: str_int_def dest: str_nat_inj)
      with a False show ?thesis by simp
    qed
  qed
qed

lemma str_int_no_pipe: "CHR ''|'' \<notin> set (str_int a)"
  by (simp add: str_int_def str_nat_no_pipe)

lemma str_int_not_Nil: "str_int a \<noteq> []"
  by (simp add: str_int_def str_nat_not_Nil)

lemma sep_split:
  assumes "CHR ''|'' \<notin> set x" and "CHR ''|'' \<notin> set y"
    and "x @ CHR ''|'' # r = y @ CHR ''|'' # s"
  shows "x = y \<and> r = s"
  using assms
proof (induction x arbitrary: y)
  case Nil
  then show ?case by (cases y) auto
next
  case (Cons a x)
  then show ?case by (cases y) auto
qed

lemma join_Cons:
  "join sep (x # xs) = (if xs = [] then x else x @ sep @ join sep xs)"
  by (cases xs) simp_all

lemma join_no_sep_tail:
  "CHR ''|'' \<notin> set x \<Longrightarrow> x \<noteq> y @ CHR ''|'' # r"
  by auto


lemma join_inj:
  "clean xs \<Longrightarrow> clean ys \<Longrightarrow> join ''|'' xs = join ''|'' ys \<Longrightarrow> xs = ys"
proof (induction xs arbitrary: ys)
  case Nil
  then show ?case by (cases ys) (auto simp: join_Cons clean_def split: if_splits)
next
  case (Cons x xs)
  note prems = Cons.prems and IH = Cons.IH
  show ?case
  proof (cases ys)
    case Nil
    with prems show ?thesis by (auto simp: join_Cons clean_def split: if_splits)
  next
    case (Cons y ys')
    from prems Cons have cx: "CHR ''|'' \<notin> set x" and cy: "CHR ''|'' \<notin> set y"
      and cxs: "clean xs" and cys: "clean ys'"
      by (auto simp: clean_def)
    show ?thesis
    proof (cases "xs = []")
      case xs: True
      show ?thesis
      proof (cases "ys' = []")
        case True
        with xs prems Cons show ?thesis by simp
      next
        case False
        with xs prems Cons have "x = y @ CHR ''|'' # join ''|'' ys'"
          by (simp add: join_Cons)
        with cx show ?thesis by auto
      qed
    next
      case xs: False
      show ?thesis
      proof (cases "ys' = []")
        case True
        with xs prems Cons have "y = x @ CHR ''|'' # join ''|'' xs"
          by (simp add: join_Cons)
        with cy show ?thesis by auto
      next
        case False
        with xs prems Cons
        have "x @ CHR ''|'' # join ''|'' xs = y @ CHR ''|'' # join ''|'' ys'"
          by (simp add: join_Cons)
        from sep_split [OF cx cy this] have "x = y" and "join ''|'' xs = join ''|'' ys'"
          by simp_all
        with IH [OF cxs cys] Cons show ?thesis by simp
      qed
    qed
  qed
qed

subsection \<open>Sensitivity of the hash input\<close>

lemma length_append_if: "length (append_if x) = (if present x then 1 else 0)"
  by (cases x) (simp_all add: present_def)

lemma length_append_if_num: "length (append_if_num tag x) = (if present_num x then 1 else 0)"
  by (cases x) (simp_all add: present_num_def)

lemma append_if_eq_keep: "append_if x = append_if y \<Longrightarrow> keep x = keep y"
  by (cases x; cases y) (auto simp: keep_def present_def split: if_splits)

lemma append_if_num_eq_keep:
  "append_if_num tag x = append_if_num tag y \<Longrightarrow> keep_num x = keep_num y"
  by (cases x; cases y) (auto simp: keep_num_def present_num_def split: if_splits dest: str_int_inj)

lemma clean_append: "clean (xs @ ys) \<longleftrightarrow> clean xs \<and> clean ys"
  by (auto simp: clean_def)

lemma clean_append_if_num_area: "clean (append_if_num ''area:'' x)"
  by (cases x) (simp_all add: clean_def str_int_no_pipe)

lemma clean_append_if_num_price: "clean (append_if_num ''price:'' x)"
  by (cases x) (simp_all add: clean_def str_int_no_pipe)

lemma clean_append_if: "clean (append_if x) \<longleftrightarrow> list_all (\<lambda>s. CHR ''|'' \<notin> set s) (append_if x)"
  by (cases x) (simp_all add: clean_def)

lemma clean_vbt_identifiers: "pipe_free l \<Longrightarrow> clean (vbt_identifiers l)"
  by (simp add: pipe_free_def vbt_identifiers_def clean_append clean_append_if
      clean_append_if_num_area clean_append_if_num_price)

lemma filter_clean: "clean xs \<Longrightarrow> filter (\<lambda>x. x \<noteq> []) xs = xs"
  by (simp add: clean_def)

lemma vbt_identifiers_inj:
  assumes "presence l1 = presence l2" and "vbt_identifiers l1 = vbt_identifiers l2"
  shows "present_fields l1 = present_fields l2"
proof -
  from assms(1) have
    "length (append_if (url l1)) = length (append_if (url l2))"
    "length (append_if (source_id l1)) = length (append_if (source_id l2))"
    "length (append_if (title l1)) = length (append_if (title l2))"
    "length (append_if (address l1)) = length (append_if (address l2))"
    "length (append_if (postal_code l1)) = length (append_if (postal_code l2))"
    "length (append_if (city l1)) = length (append_if (city l2))"
    "length (append_if_num ''area:'' (living_area l1)) =
       length (append_if_num ''area:'' (living_area l2))"
    by (simp_all add: presence_def length_append_if length_append_if_num)
  with assms(2) have
    "append_if (url l1) = append_if (url l2)"
    "append_if (source_id l1) = append_if (source_id l2)"
    "append_if (title l1) = append_if (title l2)"
    "append_if (address l1) = append_if (address l2)"
    "append_if (postal_code l1) = append_if (postal_code l2)"
    "append_if (city l1) = append_if (city l2)"
    "append_if_num ''area:'' (living_area l1) = append_if_num ''area:'' (living_area l2)"
    "append_if_num ''price:'' (price_numeric l1) = append_if_num ''price:'' (price_numeric l2)"
    by (simp_all add: vbt_identifiers_def)
  then have
    "keep (url l1) = keep (url l2)"
    "keep (source_id l1) = keep (source_id l2)"
    "keep (title l1) = keep (title l2)"
    "keep (address l1) = keep (address l2)"
    "keep (postal_code l1) = keep (postal_code l2)"
    "keep (city l1) = keep (city l2)"
    "keep_num (living_area l1) = keep_num (living_area l2)"
    "keep_num (price_numeric l1) = keep_num (price_numeric l2)"
    by (blast intro: append_if_eq_keep append_if_num_eq_keep)+
  then show ?thesis
    by (simp only: present_fields_def)
qed

lemma not_present_fields:
  "\<not> some_identifying_field_present l \<Longrightarrow>
   present_fields l = (None, None, None, None, None, None, None, None)"
  by (simp add: some_identifying_field_present_def present_fields_def keep_def keep_num_def)

lemma some_present_presence:
  "presence l1 = presence l2 \<Longrightarrow>
   some_identifying_field_present l1 = some_identifying_field_present l2"
  by (simp add: presence_def some_identifying_field_present_def)

text \<open>
  C9, as amended. Two listings that have the same identifying fields present, whose present
  string fields hold no \<open>|\<close>, and that differ in a present identifying field, have
  different pipe-joined hash inputs, whichever scraper builds them: their digests differ
  unless MD5 collides on these two inputs.
\<close>

theorem hash_input_sensitive:
  assumes "presence l1 = presence l2"
    and "pipe_free l1" and "pipe_free l2"
    and "present_fields l1 \<noteq> present_fields l2"
  shows "hash_input sc1 u1 l1 \<noteq> hash_input sc2 u2 l2"
proof
  assume eq: "hash_input sc1 u1 l1 = hash_input sc2 u2 l2"
  have p1: "some_identifying_field_present l1"
  proof (rule ccontr)
    assume n1: "\<not> some_identifying_field_present l1"
    then have n2: "\<not> some_identifying_field_present l2"
      using some_present_presence [OF assms(1)] by simp
    from not_present_fields [OF n1] not_present_fields [OF n2] assms(4)
    show False by simp
  qed
  then have p2: "some_identifying_field_present l2"
    using some_present_presence [OF assms(1)] by simp
  have c1: "clean (vbt_identifiers l1)" and c2: "clean (vbt_identifiers l2)"
    using assms(2,3) by (simp_all add: clean_vbt_identifiers)
  have "join ''|'' (vbt_identifiers l1) = join ''|'' (vbt_identifiers l2)"
    using eq vbt_hash_input_present [OF p1, of u1] vbt_hash_input_present [OF p2, of u2]
    by (simp add: hash_input_vbt filter_clean [OF c1] filter_clean [OF c2])
  from join_inj [OF c1 c2 this] have "vbt_identifiers l1 = vbt_identifiers l2" .
  from vbt_identifiers_inj [OF assms(1) this] assms(4) show False by simp
qed


theorem hash_input_sensitive_witness:
  "presence listing_a = presence (listing_a\<lparr>price_numeric := Some 1300\<rparr>) \<and>
   pipe_free listing_a \<and> pipe_free (listing_a\<lparr>price_numeric := Some 1300\<rparr>) \<and>
   present_fields listing_a \<noteq> present_fields (listing_a\<lparr>price_numeric := Some 1300\<rparr>) \<and>
   hash_input VBTVerhuurmakelaarsScraper ''u1'' listing_a \<noteq>
     hash_input HurenInHollandRijnland ''u2'' (listing_a\<lparr>price_numeric := Some 1300\<rparr>)"
proof -
  have a: "presence listing_a = presence (listing_a\<lparr>price_numeric := Some 1300\<rparr>)"
    by (simp add: presence_def listing_a_def present_num_def)
  have b: "pipe_free listing_a"
    by (simp add: pipe_free_def listing_a_def)
  have c: "pipe_free (listing_a\<lparr>price_numeric := Some 1300\<rparr>)"
    by (simp add: pipe_free_def listing_a_def)
  have d: "present_fields listing_a \<noteq> present_fields (listing_a\<lparr>price_numeric := Some 1300\<rparr>)"
    by (simp add: present_fields_def listing_a_def keep_num_def present_num_def)
  show ?thesis
    using a b c d hash_input_sensitive [OF a b c d] by blast
qed

text \<open>
  C9 as stated fails: a listing that has only the title \<open>Breestraat 12\<close> and a
  listing that has only the address \<open>Breestraat 12\<close> differ in two identifying fields
  and have the same hash input, hence the same digest.
\<close>

theorem hash_collision_counterexample:
  "identifying_fields listing_title_only \<noteq> identifying_fields listing_address_only \<and>
   hash_input VBTVerhuurmakelaarsScraper ''u1'' listing_title_only =
     hash_input VBTVerhuurmakelaarsScraper ''u2'' listing_address_only \<and>
   (\<forall>md5. generate_property_hash VBTVerhuurmakelaarsScraper md5 ''u1'' listing_title_only =
      generate_property_hash VBTVerhuurmakelaarsScraper md5 ''u2'' listing_address_only)"
  by (simp add: identifying_fields_def listing_title_only_def listing_address_only_def
      vbt_generate_property_hash_def vbt_hash_input_def vbt_identifiers_def)
section \<open>Properties of the HTTP client\<close>

subsection \<open>The proxy flag and the decoder\<close>

text \<open>
  C8. After a call of \<open>get_with_fallback\<close> the flag \<open>use_proxies\<close> of the client is what
  it was before the call: on a client with proxies enabled (and on any other), whether the
  first call of \<open>get\<close> returns, raises a request error followed by a direct call that
  returns or raises, or raises another exception.
\<close>

theorem get_with_fallback_restores_use_proxies:
  "use_proxies (snd (get_with_fallback self e1 e2 url' retry_anti_bot max_antibot_retries kw)) =
   use_proxies self"
  by (simp add: get_with_fallback_def Let_def split: prod.splits sum.splits)

text \<open>
  C6 fails on the code: a charset whose name the codec registry does not know, here
  \<open>bogus\<close>, makes \<open>content.decode(charset)\<close> raise \<open>LookupError\<close>, which
  \<open>_decode_content\<close> does not catch, for every content and whatever else the registry
  knows.
\<close>

theorem decode_content_unknown_charset_raises:
  "decode_content (registry(''bogus'' := None)) content0 (Some ''bogus'') = Inl LookupError"
  by (simp add: decode_content_def bytes_decode_def)

subsection \<open>The catalog and one attempt\<close>

lemma catalog_of_Inr:
  "3 \<le> length (split_on CHR ''/'' url') \<Longrightarrow> browser_profiles e url' = Inr (catalog_of e url')"
  by (simp add: catalog_of_def browser_profiles_def Let_def)

lemma catalog_of_length:
  "3 \<le> length (split_on CHR ''/'' url') \<Longrightarrow> length (catalog_of e url') = 6"
  by (simp add: catalog_of_def browser_profiles_def Let_def)

lemma catalog_of_custom:
  assumes "3 \<le> length (split_on CHR ''/'' url')" and "0 < i" and "i < 6"
  shows "custom (catalog_of e url' ! i) \<and> p_headers (catalog_of e url' ! i) \<noteq> None \<and>
         p_cookies (catalog_of e url' ! i) \<noteq> None"
proof -
  from assms have "i = 1 \<or> i = 2 \<or> i = 3 \<or> i = 4 \<or> i = 5" by arith
  then show ?thesis
    using assms(1)
    by (elim disjE) (simp_all add: catalog_of_def browser_profiles_def Let_def)
qed

lemma requests_append: "requests (xs @ ys) = requests xs @ requests ys"
  by (induction xs rule: requests.induct) simp_all

lemma select_profile_first:
  assumes "catalog_var st \<noteq> []"
  shows "select_profile e 0 st =
    Inr (catalog_var st ! 0, get_browser_headers (browser_choice e 0) (referer_choice e 0), Fresh,
         (case kw_cookies (kwargs_var st) of None \<Rightarrow> [] | Some c \<Rightarrow> c),
         (kwargs_var st)\<lparr>kw_cookies := None\<rparr>)"
  using assms by (simp add: select_profile_def Let_def pop_cookies_def)

lemma select_profile_retry:
  assumes url: "3 \<le> length (split_on CHR ''/'' url')"
    and cat: "catalog_var st = catalog_of e url'" and n: "0 < n"
  shows "select_profile e n st =
    Inr (catalog_of e url' ! min n (length (catalog_of e url') - 1),
         (case p_headers (catalog_of e url' ! min n (length (catalog_of e url') - 1)) of
            None \<Rightarrow> [] | Some h \<Rightarrow> h),
         Of_profile (min n (length (catalog_of e url') - 1)),
         (case p_cookies (catalog_of e url' ! min n (length (catalog_of e url') - 1)) of
            None \<Rightarrow> [] | Some c \<Rightarrow> c),
         kwargs_var st)"
proof -
  let ?i = "min n (length (catalog_of e url') - 1)"
  have len: "length (catalog_of e url') = 6" by (rule catalog_of_length [OF url])
  with n have i: "0 < ?i" "?i < 6" by simp_all
  from catalog_of_custom [OF url i, where e = e] obtain h c where
    "custom (catalog_of e url' ! ?i)" "p_headers (catalog_of e url' ! ?i) = Some h"
    "p_cookies (catalog_of e url' ! ?i) = Some c"
    by auto
  moreover have "catalog_of e url' \<noteq> []" using len by auto
  ultimately show ?thesis
    using n cat by (simp add: select_profile_def Let_def)
qed

lemma prepare_cases:
  assumes url: "3 \<le> length (split_on CHR ''/'' url')"
    and cat: "catalog_var st = catalog_of e url'"
    and inv: "0 < n \<Longrightarrow> kw_headers (kwargs_var st) = None \<and> kw_cookies (kwargs_var st) = None"
  obtains st1 where
    "prepare self e url' n st = Inr (claimed_request self e url' (kwargs_var st) n, st1)"
    "kw_headers (kwargs_var st1) = None" "kw_cookies (kwargs_var st1) = None"
    "kw_rest (kwargs_var st1) = kw_rest (kwargs_var st)"
    "catalog_var st1 = catalog_var st" "response_var st1 = response_var st"
    "events st1 = events st @ (if n > 0 then [Sleep (Retry_delay n)] else []) @ [Sleep (Human_delay n)]"
proof (cases "n = 0")
  case True
  have ne: "catalog_var st \<noteq> []"
    using catalog_of_length [OF url, of e] cat by auto
  show ?thesis
  proof (cases "kw_headers (kwargs_var st)")
    case None
    show ?thesis
      by (rule that [of "snd (projr (prepare self e url' n st))"])
        (simp_all add: True prepare_def select_profile_first [OF ne] apply_custom_headers_def
          None claimed_request_def Let_def cat)
  next
    case (Some h)
    show ?thesis
      by (rule that [of "snd (projr (prepare self e url' n st))"])
        (simp_all add: True prepare_def select_profile_first [OF ne] apply_custom_headers_def
          Some claimed_request_def Let_def cat)
  qed
next
  case False
  then have n: "0 < n" by simp
  from inv [OF n] have kw: "kw_headers (kwargs_var st) = None" "kw_cookies (kwargs_var st) = None"
    by simp_all
  show ?thesis
    by (rule that [of "snd (projr (prepare self e url' n st))"])
      (simp_all add: False n prepare_def select_profile_retry [OF url cat n]
        apply_custom_headers_def kw claimed_request_def Let_def)
qed

lemma check_response_frame:
  assumes "check_response self e r m n response st = (out, st')"
  shows "kwargs_var st' = kwargs_var st \<and> catalog_var st' = catalog_var st \<and>
         requests (events st') = requests (events st)"
  using assms
  by (auto simp: check_response_def Let_def requests_append split: if_splits option.splits sum.splits)

lemma attempt_cases:
  assumes url: "3 \<le> length (split_on CHR ''/'' url')"
    and cat: "catalog_var st = catalog_of e url'"
    and inv: "0 < n \<Longrightarrow> kw_headers (kwargs_var st) = None \<and> kw_cookies (kwargs_var st) = None"
  obtains st2 where
    "attempt self e url' r m n st =
       (case transport e n of
          Inl err \<Rightarrow> (Raises err, st2)
        | Inr response \<Rightarrow> check_response self e r m n response (st2\<lparr>response_var := Some response\<rparr>))"
    "kw_headers (kwargs_var st2) = None" "kw_cookies (kwargs_var st2) = None"
    "kw_rest (kwargs_var st2) = kw_rest (kwargs_var st)"
    "catalog_var st2 = catalog_var st"
    "events st2 = events st @ (if n > 0 then [Sleep (Retry_delay n)] else []) @
       [Sleep (Human_delay n), Request (claimed_request self e url' (kwargs_var st) n)]"
proof -
  from prepare_cases [OF url cat inv, where self = self] obtain st1 where p:
    "prepare self e url' n st = Inr (claimed_request self e url' (kwargs_var st) n, st1)"
    "kw_headers (kwargs_var st1) = None" "kw_cookies (kwargs_var st1) = None"
    "kw_rest (kwargs_var st1) = kw_rest (kwargs_var st)"
    "catalog_var st1 = catalog_var st" "response_var st1 = response_var st"
    "events st1 = events st @ (if n > 0 then [Sleep (Retry_delay n)] else []) @ [Sleep (Human_delay n)]"
    by blast
  let ?st2 = "st1\<lparr>events := events st1 @ [Request (claimed_request self e url' (kwargs_var st) n)]\<rparr>"
  have a: "attempt self e url' r m n st =
       (case transport e n of
          Inl err \<Rightarrow> (Raises err, ?st2)
        | Inr response \<Rightarrow> check_response self e r m n response (?st2\<lparr>response_var := Some response\<rparr>))"
    by (simp add: attempt_def p(1) p(3) Let_def)
  show ?thesis
  proof (rule that [of ?st2])
    show "attempt self e url' r m n st =
       (case transport e n of
          Inl err \<Rightarrow> (Raises err, ?st2)
        | Inr response \<Rightarrow> check_response self e r m n response (?st2\<lparr>response_var := Some response\<rparr>))"
      by (fact a)
  qed (simp_all add: p)
qed

lemma attempt_frame:
  assumes url: "3 \<le> length (split_on CHR ''/'' url')"
    and cat: "catalog_var st = catalog_of e url'"
    and inv: "0 < n \<Longrightarrow> kw_headers (kwargs_var st) = None \<and> kw_cookies (kwargs_var st) = None"
    and att: "attempt self e url' r m n st = (out, st')"
  shows "kw_headers (kwargs_var st') = None \<and> kw_cookies (kwargs_var st') = None \<and>
         kw_rest (kwargs_var st') = kw_rest (kwargs_var st) \<and>
         catalog_var st' = catalog_var st \<and>
         requests (events st') =
           requests (events st) @ [claimed_request self e url' (kwargs_var st) n]"
proof -
  from attempt_cases [OF url cat inv, where self = self and r = r and m = m] obtain st2 where a:
    "attempt self e url' r m n st =
       (case transport e n of
          Inl err \<Rightarrow> (Raises err, st2)
        | Inr response \<Rightarrow> check_response self e r m n response (st2\<lparr>response_var := Some response\<rparr>))"
    "kw_headers (kwargs_var st2) = None" "kw_cookies (kwargs_var st2) = None"
    "kw_rest (kwargs_var st2) = kw_rest (kwargs_var st)"
    "catalog_var st2 = catalog_var st"
    "events st2 = events st @ (if n > 0 then [Sleep (Retry_delay n)] else []) @
       [Sleep (Human_delay n), Request (claimed_request self e url' (kwargs_var st) n)]"
    by blast
  have rq: "requests (events st2) =
      requests (events st) @ [claimed_request self e url' (kwargs_var st) n]"
    by (simp add: a(6) requests_append)
  show ?thesis
  proof (cases "transport e n")
    case (Inl err)
    with a att have "st' = st2" by simp
    with a rq show ?thesis by simp
  next
    case (Inr response)
    with a(1) att have
      "check_response self e r m n response (st2\<lparr>response_var := Some response\<rparr>) = (out, st')"
      by simp
    from check_response_frame [OF this] a rq show ?thesis by simp
  qed
qed

subsection \<open>The requests of a call\<close>

lemma claimed_request_rest:
  "0 < n \<Longrightarrow> kw_rest kw = kw_rest kw0 \<Longrightarrow>
   claimed_request self e url' kw n = claimed_request self e url' kw0 n"
  by (simp add: claimed_request_def)

lemma get_loop_exit:
  "\<not> int n \<le> m \<Longrightarrow>
   get_loop self e url' r m n st =
     (case response_var st of
        None \<Rightarrow> (Inl UnboundLocalError, events st)
      | Some response \<Rightarrow> (Inr response, events st))"
  by (subst get_loop.simps) simp

lemma get_loop_step:
  "int n \<le> m \<Longrightarrow> attempt self e url' r m n st = (out, st') \<Longrightarrow>
   get_loop self e url' r m n st =
     (case out of
        Returns response \<Rightarrow> (Inr response, events st')
      | Raises err \<Rightarrow> (Inl err, events st')
      | Continue \<Rightarrow> get_loop self e url' r m (Suc n) st')"
  by (subst get_loop.simps) (simp split: outcome.splits)

lemma get_loop_requests:
  assumes url: "3 \<le> length (split_on CHR ''/'' url')"
    and cat: "catalog_var st = catalog_of e url'"
    and rest: "kw_rest (kwargs_var st) = kw_rest kw0"
    and first: "n = 0 \<Longrightarrow> kwargs_var st = kw0"
    and inv: "0 < n \<Longrightarrow> kw_headers (kwargs_var st) = None \<and> kw_cookies (kwargs_var st) = None"
  shows "\<exists>k. requests (snd (get_loop self e url' r m n st)) =
           requests (events st) @ map (claimed_request self e url' kw0) [n..<n + k]"
  using cat rest first inv
proof (induction "nat (m + 1 - int n)" arbitrary: n st rule: less_induct)
  case less
  show ?case
  proof (cases "int n \<le> m")
    case False
    then have "snd (get_loop self e url' r m n st) = events st"
      by (simp add: get_loop_exit split: option.splits)
    then show ?thesis by (intro exI [of _ 0]) simp
  next
    case True
    obtain out st' where att: "attempt self e url' r m n st = (out, st')"
      by (cases "attempt self e url' r m n st") blast
    have fr: "kw_headers (kwargs_var st') = None \<and> kw_cookies (kwargs_var st') = None \<and>
         kw_rest (kwargs_var st') = kw_rest (kwargs_var st) \<and>
         catalog_var st' = catalog_var st \<and>
         requests (events st') =
           requests (events st) @ [claimed_request self e url' (kwargs_var st) n]"
      by (rule attempt_frame [OF url less.prems(1) less.prems(4) att])
    then have rq: "requests (events st') =
           requests (events st) @ [claimed_request self e url' (kwargs_var st) n]"
      by blast
    have cl: "claimed_request self e url' (kwargs_var st) n = claimed_request self e url' kw0 n"
    proof (cases "n = 0")
      case True
      with less.prems(3) show ?thesis by simp
    next
      case False
      then have "0 < n" by simp
      then show ?thesis using less.prems(2) by (rule claimed_request_rest)
    qed
    note step = get_loop_step [OF True att]
    show ?thesis
    proof (cases out)
      case (Returns response)
      with step have "snd (get_loop self e url' r m n st) = events st'" by simp
      with rq cl show ?thesis by (intro exI [of _ 1]) simp
    next
      case (Raises err)
      with step have "snd (get_loop self e url' r m n st) = events st'" by simp
      with rq cl show ?thesis by (intro exI [of _ 1]) simp
    next
      case Continue
      with step have eq: "get_loop self e url' r m n st = get_loop self e url' r m (Suc n) st'"
        by simp
      have lt: "nat (m + 1 - int (Suc n)) < nat (m + 1 - int n)" using True by simp
      have c1: "catalog_var st' = catalog_of e url'" using fr less.prems(1) by simp
      have c2: "kw_rest (kwargs_var st') = kw_rest kw0" using fr less.prems(2) by simp
      have c3: "Suc n = 0 \<Longrightarrow> kwargs_var st' = kw0" by simp
      have c4: "0 < Suc n \<Longrightarrow>
          kw_headers (kwargs_var st') = None \<and> kw_cookies (kwargs_var st') = None"
        using fr by blast
      from less.hyps [OF lt c1 c2 c3 c4]
      obtain k where k: "requests (snd (get_loop self e url' r m (Suc n) st')) =
           requests (events st') @ map (claimed_request self e url' kw0) [Suc n..<Suc n + k]"
        by blast
      have "[n..<n + Suc k] = n # [Suc n..<Suc n + k]"
        by (simp add: upt_conv_Cons)
      with eq k rq cl have "requests (snd (get_loop self e url' r m n st)) =
           requests (events st) @ map (claimed_request self e url' kw0) [n..<n + Suc k]"
        by simp
      then show ?thesis by blast
    qed
  qed
qed

lemma get_requests:
  "requests (snd (get self e url' retry_anti_bot max_antibot_retries kw)) =
   map (claimed_request self e url' kw)
     [0..<length (requests (snd (get self e url' retry_anti_bot max_antibot_retries kw)))]"
proof (cases "3 \<le> length (split_on CHR ''/'' url')")
  case False
  then show ?thesis by (simp add: get_def browser_profiles_def Let_def)
next
  case True
  let ?st = "\<lparr>kwargs_var = kw, catalog_var = catalog_of e url', response_var = None, events = []\<rparr>"
  have g: "get self e url' retry_anti_bot max_antibot_retries kw =
      get_loop self e url' retry_anti_bot max_antibot_retries 0 ?st"
    by (simp add: get_def catalog_of_Inr [OF True])
  have "\<exists>k. requests (snd (get_loop self e url' retry_anti_bot max_antibot_retries 0 ?st)) =
      requests (events ?st) @ map (claimed_request self e url' kw) [0..<0 + k]"
    by (rule get_loop_requests [OF True]) simp_all
  then obtain k where
    "requests (snd (get_loop self e url' retry_anti_bot max_antibot_retries 0 ?st)) =
      map (claimed_request self e url' kw) [0..<k]"
    by auto
  with g show ?thesis by simp
qed

text \<open>
  C10. The requests a call of \<open>get\<close> sends are, in order, the claimed requests of the
  attempts 0, 1, 2, ...: the first one carries the caller's headers (as an update of the
  browser headers) and the caller's cookies, and every retry carries the headers and the
  cookies of its catalog entry. The claimed request of a retry is the same whatever
  \<open>headers\<close> and \<open>cookies\<close> the caller passes.
\<close>

theorem get_overrides_first_attempt_only:
  "requests (snd (get self e url' retry_anti_bot max_antibot_retries kw)) =
     map (claimed_request self e url' kw)
       [0..<length (requests (snd (get self e url' retry_anti_bot max_antibot_retries kw)))] \<and>
   claimed_request self e url' (kw\<lparr>kw_headers := h, kw_cookies := c\<rparr>) (Suc n) =
     claimed_request self e url' kw (Suc n)"
  by (rule conjI, rule get_requests) (simp add: claimed_request_def)

subsection \<open>The first attempt\<close>

lemma check_404:
  "history response \<le> 10 \<Longrightarrow> status_code response = 404 \<Longrightarrow>
   check_response self e r m n response st = (Returns response, st)"
  by (simp add: check_response_def)

lemma check_redirects:
  "10 < history response \<Longrightarrow>
   check_response self e r m n response st = (Raises (RequestError ''Too many redirects''), st)"
  by (simp add: check_response_def)

lemma check_429:
  "history response \<le> 10 \<Longrightarrow> status_code response = 429 \<Longrightarrow>
   py_int (case hdr_retry_after response of None \<Rightarrow> ''5'' | Some v \<Rightarrow> v) = Some k \<Longrightarrow>
   check_response self e r m n response st =
     (Raises (RequestError (''Rate limited: '' @ str_int 429)),
      st\<lparr>events := events st @ [Sleep (Retry_after k)]\<rparr>)"
  by (simp add: check_response_def)

lemma check_http_error:
  "history response \<le> 10 \<Longrightarrow> 400 \<le> status_code response \<Longrightarrow> status_code response \<noteq> 404 \<Longrightarrow>
   status_code response \<noteq> 429 \<Longrightarrow>
   check_response self e r m n response st =
     (Raises (RequestError (''HTTP error: '' @ str_int (status_code response))), st)"
  by (simp add: check_response_def)

lemma check_blocked:
  assumes "transport e n = Inr response" and "blocked self e n"
  obtains response' where "inspected self e n = Inr response'"
    "check_response self e r m n response st =
       (if r \<and> int n < m then Continue else Returns response',
        st\<lparr>response_var := Some response'\<rparr>)"
proof -
  from assms have s: "status_code response = 200" "history response \<le> 10"
    by (simp_all add: blocked_def)
  from assms obtain response' where r': "settle_text self e response = Inr response'"
    "anti_bot_detected (resp_text response')"
    by (auto simp: blocked_def split: sum.splits)
  show ?thesis
  proof (rule that [of response'])
    show "inspected self e n = Inr response'"
      by (simp add: inspected_def assms(1) r')
    show "check_response self e r m n response st =
       (if r \<and> int n < m then Continue else Returns response',
        st\<lparr>response_var := Some response'\<rparr>)"
      using s(2) by (simp add: check_response_def s(1) r' Let_def)
  qed
qed

lemma get_first:
  assumes url: "3 \<le> length (split_on CHR ''/'' url')" and m: "0 \<le> m"
  obtains st2 where
    "get self e url' r m kw =
       (case attempt self e url' r m 0
               \<lparr>kwargs_var = kw, catalog_var = catalog_of e url', response_var = None,
                events = []\<rparr> of
          (out, st') \<Rightarrow>
            (case out of
               Returns response \<Rightarrow> (Inr response, events st')
             | Raises err \<Rightarrow> (Inl err, events st')
             | Continue \<Rightarrow> get_loop self e url' r m (Suc 0) st'))"
    "attempt self e url' r m 0
       \<lparr>kwargs_var = kw, catalog_var = catalog_of e url', response_var = None, events = []\<rparr> =
       (case transport e 0 of
          Inl err \<Rightarrow> (Raises err, st2)
        | Inr response \<Rightarrow>
            check_response self e r m 0 response (st2\<lparr>response_var := Some response\<rparr>))"
    "events st2 = [Sleep (Human_delay 0), Request (claimed_request self e url' kw 0)]"
proof -
  let ?st = "\<lparr>kwargs_var = kw, catalog_var = catalog_of e url', response_var = None, events = []\<rparr>"
  have g: "get self e url' r m kw = get_loop self e url' r m 0 ?st"
    by (simp add: get_def catalog_of_Inr [OF url])
  have cat: "catalog_var ?st = catalog_of e url'" by simp
  have inv: "0 < (0::nat) \<Longrightarrow>
      kw_headers (kwargs_var ?st) = None \<and> kw_cookies (kwargs_var ?st) = None"
    by simp
  from attempt_cases [OF url cat inv, where self = self and r = r and m = m]
  obtain st2 where a:
    "attempt self e url' r m 0 ?st =
       (case transport e 0 of
          Inl err \<Rightarrow> (Raises err, st2)
        | Inr response \<Rightarrow>
            check_response self e r m 0 response (st2\<lparr>response_var := Some response\<rparr>))"
    "events st2 = events ?st @ (if 0 < (0::nat) then [Sleep (Retry_delay 0)] else []) @
       [Sleep (Human_delay 0), Request (claimed_request self e url' (kwargs_var ?st) 0)]"
    by blast
  have l: "get_loop self e url' r m 0 ?st =
       (case attempt self e url' r m 0 ?st of
          (out, st') \<Rightarrow>
            (case out of
               Returns response \<Rightarrow> (Inr response, events st')
             | Raises err \<Rightarrow> (Inl err, events st')
             | Continue \<Rightarrow> get_loop self e url' r m (Suc 0) st'))"
    using m by (subst get_loop.simps) (simp split: prod.splits outcome.splits)
  show ?thesis
  proof (rule that [of st2])
    show "get self e url' r m kw =
       (case attempt self e url' r m 0 ?st of
          (out, st') \<Rightarrow>
            (case out of
               Returns response \<Rightarrow> (Inr response, events st')
             | Raises err \<Rightarrow> (Inl err, events st')
             | Continue \<Rightarrow> get_loop self e url' r m (Suc 0) st'))"
      using g l by simp
    show "attempt self e url' r m 0 ?st =
       (case transport e 0 of
          Inl err \<Rightarrow> (Raises err, st2)
        | Inr response \<Rightarrow>
            check_response self e r m 0 response (st2\<lparr>response_var := Some response\<rparr>))"
      by (fact a(1))
    show "events st2 = [Sleep (Human_delay 0), Request (claimed_request self e url' kw 0)]"
      using a(2) by simp
  qed
qed

text \<open>
  C2, as amended. When \<open>max_antibot_retries\<close> is not negative and the first attempt
  receives a response with status 404 and at most 10 redirects, \<open>get\<close> returns that
  response after exactly one request, with no retry and no error, whatever
  \<open>retry_anti_bot\<close> is. (The URL has a scheme and a host: at least two slashes.)
\<close>

theorem get_404_returned_after_one_attempt:
  assumes "3 \<le> length (split_on CHR ''/'' url')" and "0 \<le> max_antibot_retries"
    and "transport e 0 = Inr response"
    and "status_code response = 404" and "history response \<le> 10"
  shows "get self e url' retry_anti_bot max_antibot_retries kw =
           (Inr response, [Sleep (Human_delay 0), Request (claimed_request self e url' kw 0)])"
proof -
  from get_first [OF assms(1,2), where self = self and e = e and r = retry_anti_bot and kw = kw]
  obtain st2 where g:
    "get self e url' retry_anti_bot max_antibot_retries kw =
       (case attempt self e url' retry_anti_bot max_antibot_retries 0
               \<lparr>kwargs_var = kw, catalog_var = catalog_of e url', response_var = None,
                events = []\<rparr> of
          (out, st') \<Rightarrow>
            (case out of
               Returns response \<Rightarrow> (Inr response, events st')
             | Raises err \<Rightarrow> (Inl err, events st')
             | Continue \<Rightarrow> get_loop self e url' retry_anti_bot max_antibot_retries (Suc 0) st'))"
    "attempt self e url' retry_anti_bot max_antibot_retries 0
       \<lparr>kwargs_var = kw, catalog_var = catalog_of e url', response_var = None, events = []\<rparr> =
       (case transport e 0 of
          Inl err \<Rightarrow> (Raises err, st2)
        | Inr response \<Rightarrow>
            check_response self e retry_anti_bot max_antibot_retries 0 response
              (st2\<lparr>response_var := Some response\<rparr>))"
    "events st2 = [Sleep (Human_delay 0), Request (claimed_request self e url' kw 0)]"
    by blast
  show ?thesis
    by (simp add: g assms(3) check_404 [OF assms(5,4)])
qed

lemma get_too_many_redirects:
  assumes "3 \<le> length (split_on CHR ''/'' url')" and "0 \<le> max_antibot_retries"
    and "transport e 0 = Inr response" and "10 < history response"
  shows "get self e url' retry_anti_bot max_antibot_retries kw =
           (Inl (RequestError ''Too many redirects''),
            [Sleep (Human_delay 0), Request (claimed_request self e url' kw 0)])"
proof -
  from get_first [OF assms(1,2), where self = self and e = e and r = retry_anti_bot and kw = kw]
  obtain st2 where g:
    "get self e url' retry_anti_bot max_antibot_retries kw =
       (case attempt self e url' retry_anti_bot max_antibot_retries 0
               \<lparr>kwargs_var = kw, catalog_var = catalog_of e url', response_var = None,
                events = []\<rparr> of
          (out, st') \<Rightarrow>
            (case out of
               Returns response \<Rightarrow> (Inr response, events st')
             | Raises err \<Rightarrow> (Inl err, events st')
             | Continue \<Rightarrow> get_loop self e url' retry_anti_bot max_antibot_retries (Suc 0) st'))"
    "attempt self e url' retry_anti_bot max_antibot_retries 0
       \<lparr>kwargs_var = kw, catalog_var = catalog_of e url', response_var = None, events = []\<rparr> =
       (case transport e 0 of
          Inl err \<Rightarrow> (Raises err, st2)
        | Inr response \<Rightarrow>
            check_response self e retry_anti_bot max_antibot_retries 0 response
              (st2\<lparr>response_var := Some response\<rparr>))"
    "events st2 = [Sleep (Human_delay 0), Request (claimed_request self e url' kw 0)]"
    by blast
  show ?thesis
    by (simp add: g assms(3) check_redirects [OF assms(4)])
qed

text \<open>
  C3 fails on the code: when the first attempt receives status 429, \<open>get\<close> sleeps for the
  \<open>Retry-After\<close> seconds (5 without the header) and then raises \<open>RequestError\<close>
  out of the call, after one request, however large the retry budget is.
\<close>

theorem get_429_raises_without_retry:
  assumes "3 \<le> length (split_on CHR ''/'' url')" and "0 \<le> max_antibot_retries"
    and "transport e 0 = Inr response"
    and "status_code response = 429" and "history response \<le> 10"
    and "py_int (case hdr_retry_after response of None \<Rightarrow> ''5'' | Some v \<Rightarrow> v) = Some k"
  shows "get self e url' retry_anti_bot max_antibot_retries kw =
           (Inl (RequestError (''Rate limited: '' @ str_int 429)),
            [Sleep (Human_delay 0), Request (claimed_request self e url' kw 0),
             Sleep (Retry_after k)])"
proof -
  from get_first [OF assms(1,2), where self = self and e = e and r = retry_anti_bot and kw = kw]
  obtain st2 where g:
    "get self e url' retry_anti_bot max_antibot_retries kw =
       (case attempt self e url' retry_anti_bot max_antibot_retries 0
               \<lparr>kwargs_var = kw, catalog_var = catalog_of e url', response_var = None,
                events = []\<rparr> of
          (out, st') \<Rightarrow>
            (case out of
               Returns response \<Rightarrow> (Inr response, events st')
             | Raises err \<Rightarrow> (Inl err, events st')
             | Continue \<Rightarrow> get_loop self e url' retry_anti_bot max_antibot_retries (Suc 0) st'))"
    "attempt self e url' retry_anti_bot max_antibot_retries 0
       \<lparr>kwargs_var = kw, catalog_var = catalog_of e url', response_var = None, events = []\<rparr> =
       (case transport e 0 of
          Inl err \<Rightarrow> (Raises err, st2)
        | Inr response \<Rightarrow>
            check_response self e retry_anti_bot max_antibot_retries 0 response
              (st2\<lparr>response_var := Some response\<rparr>))"
    "events st2 = [Sleep (Human_delay 0), Request (claimed_request self e url' kw 0)]"
    by blast
  show ?thesis
    by (simp add: g assms(3) check_429 [OF assms(5,4,6)])
qed

text \<open>
  C4 fails on the code: when the first attempt receives a status of 400 or more other than
  404 and 429, \<open>get\<close> raises \<open>RequestError\<close> out of the call after that one request,
  however large the retry budget is.
\<close>

theorem get_http_error_raises_without_retry:
  assumes "3 \<le> length (split_on CHR ''/'' url')" and "0 \<le> max_antibot_retries"
    and "transport e 0 = Inr response"
    and "400 \<le> status_code response" and "status_code response \<noteq> 404"
    and "status_code response \<noteq> 429" and "history response \<le> 10"
  shows "get self e url' retry_anti_bot max_antibot_retries kw =
           (Inl (RequestError (''HTTP error: '' @ str_int (status_code response))),
            [Sleep (Human_delay 0), Request (claimed_request self e url' kw 0)])"
proof -
  from get_first [OF assms(1,2), where self = self and e = e and r = retry_anti_bot and kw = kw]
  obtain st2 where g:
    "get self e url' retry_anti_bot max_antibot_retries kw =
       (case attempt self e url' retry_anti_bot max_antibot_retries 0
               \<lparr>kwargs_var = kw, catalog_var = catalog_of e url', response_var = None,
                events = []\<rparr> of
          (out, st') \<Rightarrow>
            (case out of
               Returns response \<Rightarrow> (Inr response, events st')
             | Raises err \<Rightarrow> (Inl err, events st')
             | Continue \<Rightarrow> get_loop self e url' retry_anti_bot max_antibot_retries (Suc 0) st'))"
    "attempt self e url' retry_anti_bot max_antibot_retries 0
       \<lparr>kwargs_var = kw, catalog_var = catalog_of e url', response_var = None, events = []\<rparr> =
       (case transport e 0 of
          Inl err \<Rightarrow> (Raises err, st2)
        | Inr response \<Rightarrow>
            check_response self e retry_anti_bot max_antibot_retries 0 response
              (st2\<lparr>response_var := Some response\<rparr>))"
    "events st2 = [Sleep (Human_delay 0), Request (claimed_request self e url' kw 0)]"
    by blast
  show ?thesis
    by (simp add: g assms(3) check_http_error [OF assms(7,4,5,6)])
qed

subsection \<open>Calls whose every attempt meets an anti-bot page\<close>

lemma get_loop_blocked:
  assumes url: "3 \<le> length (split_on CHR ''/'' url')"
    and all: "\<And>k. int k \<le> m \<Longrightarrow> blocked self e k"
    and cat: "catalog_var st = catalog_of e url'"
    and inv: "0 < n \<Longrightarrow> kw_headers (kwargs_var st) = None \<and> kw_cookies (kwargs_var st) = None"
    and n: "int n \<le> m"
  shows "fst (get_loop self e url' True m n st) = inspected self e (nat m) \<and>
         length (requests (snd (get_loop self e url' True m n st))) =
           length (requests (events st)) + (nat m + 1 - n)"
  using cat inv n
proof (induction "nat (m + 1 - int n)" arbitrary: n st rule: less_induct)
  case less
  obtain out st' where att: "attempt self e url' True m n st = (out, st')"
    by (cases "attempt self e url' True m n st") blast
  have fr: "kw_headers (kwargs_var st') = None \<and> kw_cookies (kwargs_var st') = None \<and>
         kw_rest (kwargs_var st') = kw_rest (kwargs_var st) \<and>
         catalog_var st' = catalog_var st \<and>
         requests (events st') =
           requests (events st) @ [claimed_request self e url' (kwargs_var st) n]"
    by (rule attempt_frame [OF url less.prems(1) less.prems(2) att])
  then have rq: "length (requests (events st')) = length (requests (events st)) + 1"
    by simp
  from attempt_cases [OF url less.prems(1) less.prems(2), where self = self and r = True and m = m]
  obtain st2 where a:
    "attempt self e url' True m n st =
       (case transport e n of
          Inl err \<Rightarrow> (Raises err, st2)
        | Inr response \<Rightarrow> check_response self e True m n response (st2\<lparr>response_var := Some response\<rparr>))"
    by blast
  have b: "blocked self e n" by (rule all [OF less.prems(3)])
  then obtain response where t: "transport e n = Inr response"
    by (auto simp: blocked_def split: sum.splits)
  from check_blocked [OF t b, where r = True and m = m and st = "st2\<lparr>response_var := Some response\<rparr>"]
  obtain response' where i: "inspected self e n = Inr response'"
    and c: "check_response self e True m n response (st2\<lparr>response_var := Some response\<rparr>) =
       (if True \<and> int n < m then Continue else Returns response',
        st2\<lparr>response_var := Some response, response_var := Some response'\<rparr>)"
    by blast
  have out: "out = (if int n < m then Continue else Returns response')"
    using att a t c by simp
  note step = get_loop_step [OF less.prems(3) att]
  show ?case
  proof (cases "int n < m")
    case True
    with out step have eq: "get_loop self e url' True m n st = get_loop self e url' True m (Suc n) st'"
      by simp
    have lt: "nat (m + 1 - int (Suc n)) < nat (m + 1 - int n)" using True by simp
    have c1: "catalog_var st' = catalog_of e url'" using fr less.prems(1) by simp
    have c4: "0 < Suc n \<Longrightarrow>
        kw_headers (kwargs_var st') = None \<and> kw_cookies (kwargs_var st') = None"
      using fr by blast
    have c5: "int (Suc n) \<le> m" using True by simp
    from less.hyps [OF lt c1 c4 c5]
    have "fst (get_loop self e url' True m (Suc n) st') = inspected self e (nat m)"
      and "length (requests (snd (get_loop self e url' True m (Suc n) st'))) =
           length (requests (events st')) + (nat m + 1 - Suc n)"
      by simp_all
    moreover have "n < nat m" using True by simp
    ultimately show ?thesis using eq rq by simp
  next
    case False
    with less.prems(3) have nm: "n = nat m" by simp
    from False out step have "get_loop self e url' True m n st = (Inr response', events st')"
      by simp
    with i rq nm show ?thesis by simp
  qed
qed

lemma get_all_blocked:
  assumes url: "3 \<le> length (split_on CHR ''/'' url')"
    and m: "0 \<le> max_antibot_retries"
    and all: "\<forall>n. int n \<le> max_antibot_retries \<longrightarrow> blocked self e n"
  shows "\<exists>response.
           inspected self e (nat max_antibot_retries) = Inr response \<and>
           fst (get self e url' True max_antibot_retries kw) = Inr response \<and>
           length (requests (snd (get self e url' True max_antibot_retries kw))) =
             nat max_antibot_retries + 1"
proof -
  let ?st = "\<lparr>kwargs_var = kw, catalog_var = catalog_of e url', response_var = None, events = []\<rparr>"
  have g: "get self e url' True max_antibot_retries kw =
      get_loop self e url' True max_antibot_retries 0 ?st"
    by (simp add: get_def catalog_of_Inr [OF url])
  have a: "\<And>k. int k \<le> max_antibot_retries \<Longrightarrow> blocked self e k" using all by blast
  have cat: "catalog_var ?st = catalog_of e url'" by simp
  have inv: "0 < (0::nat) \<Longrightarrow>
      kw_headers (kwargs_var ?st) = None \<and> kw_cookies (kwargs_var ?st) = None" by simp
  have n: "int 0 \<le> max_antibot_retries" using m by simp
  from get_loop_blocked [OF url a cat inv n]
  have r: "fst (get_loop self e url' True max_antibot_retries 0 ?st) =
        inspected self e (nat max_antibot_retries)"
    "length (requests (snd (get_loop self e url' True max_antibot_retries 0 ?st))) =
        nat max_antibot_retries + 1"
    by simp_all
  have "blocked self e (nat max_antibot_retries)" using a [of "nat max_antibot_retries"] m by simp
  then obtain response where "inspected self e (nat max_antibot_retries) = Inr response"
    by (auto simp: blocked_def inspected_def split: sum.splits)
  with r g show ?thesis by simp
qed

lemma contains_self: "contains p p"
  by (cases p) simp_all

lemma contains_append: "contains p (xs @ p)"
  by (induction xs) (simp_all add: contains_self)

lemma lower_append: "lower (xs @ ys) = lower xs @ lower ys"
  by (simp add: lower_def)

lemma lower_captcha: "lower ''captcha'' = ''captcha''"
  by (simp add: lower_def lower_char_def)

lemma anti_bot_captcha: "anti_bot_detected (xs @ ''captcha'')"
  by (simp add: anti_bot_detected_def anti_bot_patterns_def lower_append contains_append
      lower_captcha)

lemma settle_captcha_page:
  "settle_text self e (page 200 k captcha_body) = Inr (page 200 k captcha_body)"
  by (simp add: settle_text_def page_def captcha_body_def Let_def)

lemma blocked_captcha_pages:
  "k \<le> 10 \<Longrightarrow> blocked self (env0 (\<lambda>n. Inr (page 200 k captcha_body))) n"
  by (simp add: blocked_def settle_captcha_page env0_def)
    (simp add: page_def captcha_body_def anti_bot_captcha)

subsection \<open>Examples\<close>

lemma split_url0: "3 \<le> length (split_on CHR ''/'' url0)"
  by (simp add: url0_def)

lemma py_int_5: "py_int ''5'' = Some 5"
  by (simp add: py_int_def strip_def is_space_def digit_value_def)

lemma str_int_429: "str_int 429 = ''429''"
  by (simp add: str_int_def str_nat.simps digit_char_def)

lemma str_int_503: "str_int 503 = ''503''"
  by (simp add: str_int_def str_nat.simps digit_char_def)

theorem get_404_returned_after_one_attempt_witness:
  "3 \<le> length (split_on CHR ''/'' url0) \<and> (0::int) \<le> 8 \<and>
   transport (env0 (\<lambda>n. Inr (page 404 0 ''Not Found''))) 0 = Inr (page 404 0 ''Not Found'') \<and>
   status_code (page 404 0 ''Not Found'') = 404 \<and> history (page 404 0 ''Not Found'') \<le> 10 \<and>
   get client0 (env0 (\<lambda>n. Inr (page 404 0 ''Not Found''))) url0 True 8 no_kwargs =
     (Inr (page 404 0 ''Not Found''),
      [Sleep (Human_delay 0),
       Request (claimed_request client0 (env0 (\<lambda>n. Inr (page 404 0 ''Not Found''))) url0
                  no_kwargs 0)])"
proof -
  let ?e = "env0 (\<lambda>n. Inr (page 404 0 ''Not Found''))"
  have a: "(0::int) \<le> 8" by simp
  have b: "transport ?e 0 = Inr (page 404 0 ''Not Found'')" by (simp add: env0_def)
  have c: "status_code (page 404 0 ''Not Found'') = 404" by (simp add: page_def)
  have d: "history (page 404 0 ''Not Found'') \<le> 10" by (simp add: page_def)
  show ?thesis
    using split_url0 a b c d
      get_404_returned_after_one_attempt [OF split_url0 a b c d, of client0 True no_kwargs]
    by blast
qed

text \<open>
  C2 as stated fails: a response with status 404 at the end of 11 redirects is not
  returned; \<open>get\<close> raises \<open>RequestError\<close>, since the redirect check comes first.
\<close>

theorem get_404_after_redirects_counterexample:
  "status_code (page 404 11 ''Not Found'') = 404 \<and>
   transport (env0 (\<lambda>n. Inr (page 404 11 ''Not Found''))) 0 = Inr (page 404 11 ''Not Found'') \<and>
   fst (get client0 (env0 (\<lambda>n. Inr (page 404 11 ''Not Found''))) url0 True 8 no_kwargs) =
     Inl (RequestError ''Too many redirects'')"
proof -
  let ?e = "env0 (\<lambda>n. Inr (page 404 11 ''Not Found''))"
  have a: "(0::int) \<le> 8" by simp
  have b: "transport ?e 0 = Inr (page 404 11 ''Not Found'')" by (simp add: env0_def)
  have d: "10 < history (page 404 11 ''Not Found'')" by (simp add: page_def)
  have "status_code (page 404 11 ''Not Found'') = 404" by (simp add: page_def)
  then show ?thesis
    using b get_too_many_redirects [OF split_url0 a b d, of client0 True no_kwargs] by simp
qed

theorem get_429_raises_without_retry_witness:
  "3 \<le> length (split_on CHR ''/'' url0) \<and> (0::int) \<le> 8 \<and>
   transport (env0 (\<lambda>n. Inr (page 429 0 ''Too Many Requests''))) 0 =
     Inr (page 429 0 ''Too Many Requests'') \<and>
   status_code (page 429 0 ''Too Many Requests'') = 429 \<and>
   history (page 429 0 ''Too Many Requests'') \<le> 10 \<and>
   py_int (case hdr_retry_after (page 429 0 ''Too Many Requests'') of
             None \<Rightarrow> ''5'' | Some v \<Rightarrow> v) = Some 5 \<and>
   get client0 (env0 (\<lambda>n. Inr (page 429 0 ''Too Many Requests''))) url0 True 8 no_kwargs =
     (Inl (RequestError ''Rate limited: 429''),
      [Sleep (Human_delay 0),
       Request (claimed_request client0 (env0 (\<lambda>n. Inr (page 429 0 ''Too Many Requests'')))
                  url0 no_kwargs 0),
       Sleep (Retry_after 5)])"
proof -
  let ?p = "page 429 0 ''Too Many Requests''"
  let ?e = "env0 (\<lambda>n. Inr ?p)"
  have a: "(0::int) \<le> 8" by simp
  have b: "transport ?e 0 = Inr ?p" by (simp add: env0_def)
  have c: "status_code ?p = 429" by (simp add: page_def)
  have d: "history ?p \<le> 10" by (simp add: page_def)
  have f: "py_int (case hdr_retry_after ?p of None \<Rightarrow> ''5'' | Some v \<Rightarrow> v) = Some 5"
    by (simp add: page_def py_int_5)
  show ?thesis
    using split_url0 a b c d f
      get_429_raises_without_retry [OF split_url0 a b c d f, of client0 True no_kwargs]
    by (simp add: str_int_429)
qed

theorem get_http_error_raises_without_retry_witness:
  "3 \<le> length (split_on CHR ''/'' url0) \<and> (0::int) \<le> 8 \<and>
   transport (env0 (\<lambda>n. Inr (page 503 0 ''Service Unavailable''))) 0 =
     Inr (page 503 0 ''Service Unavailable'') \<and>
   400 \<le> status_code (page 503 0 ''Service Unavailable'') \<and>
   status_code (page 503 0 ''Service Unavailable'') \<noteq> 404 \<and>
   status_code (page 503 0 ''Service Unavailable'') \<noteq> 429 \<and>
   history (page 503 0 ''Service Unavailable'') \<le> 10 \<and>
   get client0 (env0 (\<lambda>n. Inr (page 503 0 ''Service Unavailable''))) url0 True 8 no_kwargs =
     (Inl (RequestError ''HTTP error: 503''),
      [Sleep (Human_delay 0),
       Request (claimed_request client0 (env0 (\<lambda>n. Inr (page 503 0 ''Service Unavailable'')))
                  url0 no_kwargs 0)])"
proof -
  let ?p = "page 503 0 ''Service Unavailable''"
  let ?e = "env0 (\<lambda>n. Inr ?p)"
  have a: "(0::int) \<le> 8" by simp
  have b: "transport ?e 0 = Inr ?p" by (simp add: env0_def)
  have c: "400 \<le> status_code ?p" by (simp add: page_def)
  have c1: "status_code ?p \<noteq> 404" by (simp add: page_def)
  have c2: "status_code ?p \<noteq> 429" by (simp add: page_def)
  have d: "history ?p \<le> 10" by (simp add: page_def)
  have s: "status_code ?p = 503" by (simp add: page_def)
  show ?thesis
    using split_url0 a b c c1 c2 d
      get_http_error_raises_without_retry [OF split_url0 a b c c1 c2 d, of client0 True no_kwargs]
    by (simp add: s str_int_503)
qed

subsection \<open>The exhausted budget\<close>

text \<open>
  C5, as amended. When \<open>max_antibot_retries\<close> is not negative, \<open>retry_anti_bot\<close> is
  enabled and every attempt within the budget yields a 200 response with at most 10
  redirects whose text, as \<open>get\<close> inspects it (after the manual decoding of a short or
  binary page, which must not raise), matches an anti-bot signature, the call makes
  \<open>max_antibot_retries + 1\<close> requests, the first attempt and \<open>max_antibot_retries\<close>
  retries, and returns the page of the last one without raising.
\<close>

theorem get_returns_last_page_after_budget:
  assumes "3 \<le> length (split_on CHR ''/'' url')"
    and "0 \<le> max_antibot_retries"
    and "\<forall>n. int n \<le> max_antibot_retries \<longrightarrow> blocked self e n"
  shows "\<exists>response.
           inspected self e (nat max_antibot_retries) = Inr response \<and>
           fst (get self e url' True max_antibot_retries kw) = Inr response \<and>
           length (requests (snd (get self e url' True max_antibot_retries kw))) =
             nat max_antibot_retries + 1"
  using assms by (rule get_all_blocked)

theorem get_returns_last_page_after_budget_witness:
  "3 \<le> length (split_on CHR ''/'' url0) \<and> (0::int) \<le> 8 \<and>
   (\<forall>n. blocked client0 (env0 (\<lambda>n. Inr (page 200 0 captcha_body))) n) \<and>
   fst (get client0 (env0 (\<lambda>n. Inr (page 200 0 captcha_body))) url0 True 8 no_kwargs) =
     Inr (page 200 0 captcha_body) \<and>
   length (requests (snd (get client0 (env0 (\<lambda>n. Inr (page 200 0 captcha_body))) url0 True 8
                            no_kwargs))) = 9"
proof -
  let ?e = "env0 (\<lambda>n. Inr (page 200 0 captcha_body))"
  have a: "(0::int) \<le> 8" by simp
  have b: "\<forall>n. blocked client0 ?e n" by (simp add: blocked_captcha_pages)
  then have c: "\<forall>n. int n \<le> 8 \<longrightarrow> blocked client0 ?e n" by simp
  have i: "inspected client0 ?e (nat 8) = Inr (page 200 0 captcha_body)"
    by (simp add: inspected_def env0_def settle_captcha_page)
  from get_returns_last_page_after_budget [OF split_url0 a c, of no_kwargs] i
  have "fst (get client0 ?e url0 True 8 no_kwargs) = Inr (page 200 0 captcha_body)"
    and "length (requests (snd (get client0 ?e url0 True 8 no_kwargs))) = 9"
    by auto
  with split_url0 a b show ?thesis by blast
qed

text \<open>
  C5 as stated fails: when every attempt yields a 200 response that matches the signature
  \<open>captcha\<close> and comes at the end of 11 redirects, \<open>get\<close> raises \<open>RequestError\<close>.
\<close>

theorem get_blocked_after_redirects_counterexample:
  "(\<forall>n. transport (env0 (\<lambda>n. Inr (page 200 11 captcha_body))) n =
          Inr (page 200 11 captcha_body)) \<and>
   status_code (page 200 11 captcha_body) = 200 \<and>
   anti_bot_detected (resp_text (page 200 11 captcha_body)) \<and>
   fst (get client0 (env0 (\<lambda>n. Inr (page 200 11 captcha_body))) url0 True 8 no_kwargs) =
     Inl (RequestError ''Too many redirects'')"
proof -
  let ?e = "env0 (\<lambda>n. Inr (page 200 11 captcha_body))"
  have a: "(0::int) \<le> 8" by simp
  have b: "\<forall>n. transport ?e n = Inr (page 200 11 captcha_body)" by (simp add: env0_def)
  then have b0: "transport ?e 0 = Inr (page 200 11 captcha_body)" by blast
  have d: "10 < history (page 200 11 captcha_body)" by (simp add: page_def)
  have s: "status_code (page 200 11 captcha_body) = 200" by (simp add: page_def)
  have t: "anti_bot_detected (resp_text (page 200 11 captcha_body))"
    by (simp add: page_def captcha_body_def anti_bot_captcha)
  show ?thesis
    using b s t get_too_many_redirects [OF split_url0 a b0 d, of client0 True no_kwargs] by simp
qed

lemma s_attempt_claimed: "s_attempt (claimed_request self e url' kw n) = n"
  by (simp add: claimed_request_def Let_def)

lemma claimed_request_exhausted:
  assumes "3 \<le> length (split_on CHR ''/'' url')" and "5 \<le> n"
  shows "s_profile (claimed_request self e url' kw n) = ''Edge Windows'' \<and>
         s_headers (claimed_request self e url' kw n) =
           s_headers (claimed_request self e url' kw 5) \<and>
         s_cookies (claimed_request self e url' kw n) =
           s_cookies (claimed_request self e url' kw 5)"
proof -
  have m: "min n (length (catalog_of e url') - 1) = 5"
    using assms by (simp add: catalog_of_length)
  have p: "p_name (catalog_of e url' ! 5) = ''Edge Windows''"
    using assms(1) by (simp add: catalog_of_def browser_profiles_def Let_def)
  from assms(2) have "n \<noteq> 0" by simp
  then show ?thesis
    using m p assms(1) by (simp add: claimed_request_def catalog_of_length Let_def)
qed

text \<open>
  C7 fails on the code: with the default budget of 8 and an anti-bot page on every attempt,
  the call sends 9 requests, and the attempts 5 and 6 both send the profile
  \<open>Edge Windows\<close> with the same headers and the same cookies. The index
  \<open>min(n, len(browser_profiles) - 1)\<close> never selects the entry that is not custom, so
  the branch that draws new headers and cookies is never taken.
\<close>

theorem get_resends_last_profile_verbatim:
  "length (requests (snd (get client0 (env0 (\<lambda>n. Inr (page 200 0 captcha_body))) url0 True 8
                            no_kwargs))) = 9 \<and>
   map s_attempt (requests (snd (get client0 (env0 (\<lambda>n. Inr (page 200 0 captcha_body))) url0
                                  True 8 no_kwargs))) = [0, 1, 2, 3, 4, 5, 6, 7, 8] \<and>
   s_profile (requests (snd (get client0 (env0 (\<lambda>n. Inr (page 200 0 captcha_body))) url0 True 8
                               no_kwargs)) ! 5) = ''Edge Windows'' \<and>
   s_profile (requests (snd (get client0 (env0 (\<lambda>n. Inr (page 200 0 captcha_body))) url0 True 8
                               no_kwargs)) ! 6) = ''Edge Windows'' \<and>
   s_headers (requests (snd (get client0 (env0 (\<lambda>n. Inr (page 200 0 captcha_body))) url0 True 8
                               no_kwargs)) ! 6) =
     s_headers (requests (snd (get client0 (env0 (\<lambda>n. Inr (page 200 0 captcha_body))) url0 True 8
                                 no_kwargs)) ! 5) \<and>
   s_cookies (requests (snd (get client0 (env0 (\<lambda>n. Inr (page 200 0 captcha_body))) url0 True 8
                               no_kwargs)) ! 6) =
     s_cookies (requests (snd (get client0 (env0 (\<lambda>n. Inr (page 200 0 captcha_body))) url0 True 8
                                 no_kwargs)) ! 5)"
proof -
  let ?e = "env0 (\<lambda>n. Inr (page 200 0 captcha_body))"
  let ?sent = "requests (snd (get client0 ?e url0 True 8 no_kwargs))"
  let ?c = "claimed_request client0 ?e url0 no_kwargs"
  have a: "(0::int) \<le> 8" by simp
  have c: "\<forall>n. int n \<le> 8 \<longrightarrow> blocked client0 ?e n" by (simp add: blocked_captcha_pages)
  from get_all_blocked [OF split_url0 a c, of no_kwargs]
  have len: "length ?sent = 9" by auto
  have "?sent = map ?c [0..<length ?sent]" by (rule get_requests)
  with len have sent: "?sent = map ?c [0..<9]" by simp
  have u: "[0..<9] = [0, 1, 2, 3, 4, 5, 6, 7, 8::nat]"
    by (simp add: upt_rec)
  have s5: "?sent ! 5 = ?c 5" and s6: "?sent ! 6 = ?c 6"
    by (subst sent, simp add: u)+
  have att: "map s_attempt ?sent = [0, 1, 2, 3, 4, 5, 6, 7, 8]"
    by (subst sent) (simp add: u s_attempt_claimed)
  have five: "(5::nat) \<le> 5" and six: "(5::nat) \<le> 6" by simp_all
  from claimed_request_exhausted [OF split_url0 five, of client0 ?e no_kwargs]
    claimed_request_exhausted [OF split_url0 six, of client0 ?e no_kwargs]
  show ?thesis
    using len att by (simp add: s5 s6)
qed

end
